theory Spec2Isabelle
  imports Main "HOL-Library.Word"
begin

section \<open>The world outside plhwtools\<close>

text \<open>
  plhwtools drives its devices through the libplhw library and the C library. None of
  these functions is part of the program, so the model takes them as one deterministic
  transition function of an abstract world \<open>'h\<close>: a call goes in, a return value and the
  bytes placed in the caller's buffer come out, together with the next world. Nothing is
  assumed about what a device answers.
\<close>

type_synonym byte = "8 word"

datatype cpld_switch =
  CPLD_HVEN | CPLD_COM_SW_EN | CPLD_COM_SW_CLOSE | CPLD_COM_PSU | CPLD_BPCOM_CLAMP

datatype dac5820_channel_id = DAC5820_CH_A | DAC5820_CH_B

datatype dac5820_power_id =
  DAC5820_POW_ON | DAC5820_POW_OFF_FLOAT | DAC5820_POW_OFF_1K | DAC5820_POW_OFF_100K

text \<open>The three macros of the program that name the DAC channel and its power modes.\<close>

definition DAC_CH :: dac5820_channel_id where
  "DAC_CH = DAC5820_CH_A"

definition DAC_ON :: dac5820_power_id where
  "DAC_ON = DAC5820_POW_ON"

definition DAC_OFF :: dac5820_power_id where
  "DAC_OFF = DAC5820_POW_OFF_100K"

text \<open>
  Every library call the modelled functions make. The handle argument is left out (there
  is one device of each kind), and so are the bus name and address given to the
  \<open>_init\<close> functions. A buffer written by the program is part of the call; a buffer
  filled by the library is part of the answer.
\<close>

datatype ext_call =
    Cpld_init
  | Max17135_init
  | Dac5820_init
  | Eeprom_init string
  | Cpld_set_switch cpld_switch int
  | Max17135_wait_for_pok
  | Dac5820_output dac5820_channel_id byte
  | Dac5820_set_power dac5820_channel_id dac5820_power_id
  | Eeprom_get_size
  | Eeprom_set_block_size nat
  | Eeprom_set_page_size nat
  | Eeprom_seek nat
  | Eeprom_read nat
  | Eeprom_write "byte list"
  | Sys_read int nat
  | Sys_write int "byte list"
  | Sys_open string bool
  | Sys_fchmod int
  | Sys_close int
  | Malloc nat
  | Time
  | Srand int
  | Rand
  | Disable_stdin_buffering
  | Restore_stdin_termios
  | Fgetc_stdin
  | Putchar

text \<open>
  The environment: the answers of the world, whether a SIGINT has been delivered by the
  time the world is in a given state, the C library's \<open>atoi\<close>, and the width of
  \<open>size_t\<close> in bits.
\<close>

record 'h env =
  respond :: "'h \<Rightarrow> ext_call \<Rightarrow> (int \<times> byte list) \<times> 'h"
  sigint :: "'h \<Rightarrow> bool"
  atoi :: "string \<Rightarrow> int"
  size_bits :: nat

text \<open>
  What the program writes to its log. \<open>LOG\<close> prints a tag and a line number in front of
  the message; the model keeps the message. Messages with a number keep the number as a
  value: the address of a mismatch, a progress report (message, percentage, byte count)
  and a hexadecimal dump (the start index in the buffer, the number of bytes, and the
  bytes printed).
\<close>

datatype log_entry =
    Msg string
  | Addr string nat
  | Progress string int nat
  | Hex nat nat "byte list"
  | Newline

text \<open>
  The program state: the world, the calls made so far, the log, the global abort flag
  and the device handles of \<open>struct ctx\<close> (True when the pointer is not NULL).
\<close>

record 'h state =
  hw :: 'h
  trace :: "ext_call list"
  logs :: "log_entry list"
  g_abort :: bool
  cpld :: bool
  max17135 :: bool
  dac :: bool
  eeprom :: bool

definition call :: "'h env \<Rightarrow> ext_call \<Rightarrow> 'h state \<Rightarrow> (int \<times> byte list) \<times> 'h state" where
  "call e c s =
     (let (r, h') = respond e (hw s) c
      in (r, s\<lparr>hw := h', trace := trace s @ [c]\<rparr>))"

definition LOG :: "string \<Rightarrow> 'h state \<Rightarrow> 'h state" where
  "LOG m s = s\<lparr>logs := logs s @ [Msg m]\<rparr>"

definition LOG_PRINT :: "log_entry \<Rightarrow> 'h state \<Rightarrow> 'h state" where
  "LOG_PRINT x s = s\<lparr>logs := logs s @ [x]\<rparr>"

section \<open>Power sequences\<close>

definition require_cpld :: "'h env \<Rightarrow> 'h state \<Rightarrow> 'h state" where
  "require_cpld e s =
     (if \<not> cpld s
      then (let ((p, _), s') = call e Cpld_init s in s'\<lparr>cpld := (p \<noteq> 0)\<rparr>)
      else s)"

definition require_max17135 :: "'h env \<Rightarrow> 'h state \<Rightarrow> 'h state" where
  "require_max17135 e s =
     (if \<not> max17135 s
      then (let ((p, _), s') = call e Max17135_init s in s'\<lparr>max17135 := (p \<noteq> 0)\<rparr>)
      else s)"

definition require_dac :: "'h env \<Rightarrow> 'h state \<Rightarrow> 'h state" where
  "require_dac e s =
     (if \<not> dac s
      then (let ((p, _), s') = call e Dac5820_init s in s'\<lparr>dac := (p \<noteq> 0)\<rparr>)
      else s)"

text \<open>
  The macro \<open>STEP(cmd, msg)\<close>: run the command; a negative result is logged and returned
  at once from the enclosing function, anything else is logged and the function goes on
  with the statements after the macro, here the continuation \<open>rest\<close>.
\<close>

definition STEP ::
  "'h env \<Rightarrow> ext_call \<Rightarrow> string \<Rightarrow> ('h state \<Rightarrow> int \<times> 'h state) \<Rightarrow> 'h state \<Rightarrow> int \<times> 'h state"
where
  "STEP e cmd msg rest s =
     (let ((res, _), s1) = call e cmd s
      in if res < 0 then (res, LOG (msg @ '' failed (ERROR)'') s1)
         else rest (LOG (msg @ '' ok'') s1))"

definition power_on_seq0 :: "'h env \<Rightarrow> byte \<Rightarrow> 'h state \<Rightarrow> int \<times> 'h state" where
  "power_on_seq0 e vcom s =
     (let s1 = require_cpld e s;
          s2 = require_max17135 e s1;
          s3 = require_dac e s2
      in if \<not> cpld s3 \<or> \<not> max17135 s3 then (- 1, s3)
         else
          (STEP e (Cpld_set_switch CPLD_BPCOM_CLAMP 1) ''BPCOM clamp''
          (STEP e (Cpld_set_switch CPLD_HVEN 1) ''HV enable''
          (STEP e Max17135_wait_for_pok ''wait for POK''
          (STEP e (Cpld_set_switch CPLD_COM_SW_CLOSE 0) ''COM open''
          (STEP e (Cpld_set_switch CPLD_COM_SW_EN 1) ''COM enable''
          (STEP e (Cpld_set_switch CPLD_COM_PSU 1) ''COM PSU on''
          (STEP e (Dac5820_output DAC5820_CH_A vcom) ''VCOM DAC value''
          (STEP e (Dac5820_set_power DAC_CH DAC_ON) ''DAC power on''
          (STEP e (Cpld_set_switch CPLD_COM_SW_CLOSE 1) ''COM close''
          (\<lambda>s. (0, s))))))))))) s3)"

definition power_off_seq0 :: "'h env \<Rightarrow> 'h state \<Rightarrow> int \<times> 'h state" where
  "power_off_seq0 e s =
     (let s1 = require_cpld e s;
          s2 = require_dac e s1
      in if \<not> cpld s2 then (- 1, s2)
         else
          (STEP e (Cpld_set_switch CPLD_COM_SW_CLOSE 0) ''COM open''
          (STEP e (Cpld_set_switch CPLD_COM_SW_EN 0) ''COM disable''
          (STEP e (Dac5820_set_power DAC_CH DAC_OFF) ''DAC power off''
          (STEP e (Cpld_set_switch CPLD_COM_PSU 0) ''COM PSU off''
          (STEP e (Cpld_set_switch CPLD_HVEN 0) ''HV disable''
          (\<lambda>s. (0, s))))))) s2)"

text \<open>
  The table of power sequences. An entry holds its name, its two procedures and the
  timings of the HV PMIC; the table ends with an entry whose name is NULL.
\<close>

record 'h power_seq =
  name :: "string option"
  on :: "('h env \<Rightarrow> byte \<Rightarrow> 'h state \<Rightarrow> int \<times> 'h state) option"
  off :: "('h env \<Rightarrow> 'h state \<Rightarrow> int \<times> 'h state) option"
  timing :: "int list"

text \<open>
  Modelled from the spec: \<open>MAX17135_NB_TIMINGS\<close>, the length of the timing array, is a
  macro of the libplhw header, which is not among the sources; the spec gives a timing
  profile eight entries.
\<close>

definition MAX17135_NB_TIMINGS :: nat where
  "MAX17135_NB_TIMINGS = 8"

text \<open>A C array initialiser: the entries not given are zero.\<close>

definition char_array :: "nat \<Rightarrow> int list \<Rightarrow> int list" where
  "char_array n init = take n (init @ replicate (n - length init) 0)"

definition seqs :: "'h power_seq list" where
  "seqs =
     [\<lparr>name = Some ''seq0'', on = Some power_on_seq0, off = Some power_off_seq0,
       timing = char_array MAX17135_NB_TIMINGS [8, 2, 11, 3, 0, 0, 0, 0]\<rparr>,
      \<lparr>name = None, on = None, off = None,
       timing = char_array MAX17135_NB_TIMINGS []\<rparr>]"

text \<open>
  The search loop of \<open>get_power_seq\<close>: it stops at the first entry that has the name
  asked for, or at the entry whose name is NULL, and gives the entry it stopped at. A
  table without a closing entry would be read past its end (None).
\<close>

fun seq_search :: "string \<Rightarrow> 'h power_seq list \<Rightarrow> 'h power_seq option" where
  "seq_search seq_name [] = None"
| "seq_search seq_name (q # qs) =
     (case name q of
        None \<Rightarrow> Some q
      | Some n \<Rightarrow> if seq_name = n then Some q else seq_search seq_name qs)"

definition get_power_seq :: "string list \<Rightarrow> 'h state \<Rightarrow> 'h power_seq option \<times> 'h state" where
  "get_power_seq argv s =
     (let (seq, s1) =
            (if length argv < 1 then (Some (seqs ! 0), s)
             else
               (let seq_name = argv ! 0;
                    seq = seq_search seq_name seqs
                in case seq of
                     None \<Rightarrow> (None, s)
                   | Some q \<Rightarrow>
                       (Some q,
                        if name q = None then LOG (''Sequence not found: '' @ seq_name) s
                        else s)))
      in case seq of
           None \<Rightarrow> (None, s1)
         | Some q \<Rightarrow> if name q = None then (None, s1) else (Some q, s1))"

definition get_on_off_opt :: "string \<Rightarrow> int" where
  "get_on_off_opt on_off =
     (if on_off = ''on'' then 1 else if on_off = ''off'' then 0 else - 1)"

text \<open>
  \<open>run_power\<close>. The arguments are those after the command name: \<open>on\<close> or \<open>off\<close>, then
  the name of the sequence, then the VCOM value. The VCOM value is a \<open>char\<close>, here a
  byte; \<open>(char) vcom_raw\<close> keeps the low eight bits.
\<close>

definition run_power :: "'h env \<Rightarrow> string list \<Rightarrow> 'h state \<Rightarrow> int \<times> 'h state" where
  "run_power e argv s =
     (if length argv < 1 then (- 1, LOG ''invalid arguments'' s)
      else
        (let on_opt = get_on_off_opt (argv ! 0)
         in if on_opt < 0
            then (- 1, LOG ''invalid arguments (possible values are `on' or `off')'' s)
            else
              (let (seq, s1) = get_power_seq (tl argv) s
               in case seq of
                    None \<Rightarrow> (- 1, s1)
                  | Some q \<Rightarrow>
                      (let (stat, s3) =
                             (if on_opt \<noteq> 0
                              then
                                (let (vcom, s2) =
                                       (if length argv > 2
                                        then
                                          (let vcom_raw = atoi e (argv ! 2)
                                           in if vcom_raw < 0 \<or> vcom_raw > 255
                                              then (128,
                                                    LOG ''invalid vcom value (valid range: 0-255)'' s1)
                                              else (word_of_int vcom_raw, s1))
                                        else (128, s1))
                                 in (the (on q)) e vcom s2)
                              else (the (off q)) e s1)
                       in (stat,
                           if stat = 0
                           then LOG (''Power '' @ (if on_opt \<noteq> 0 then ''on'' else ''off'')) s3
                           else s3)))))"

section \<open>EEPROM\<close>

text \<open>
  Three things a C program must not do and the functions below could do: divide by zero,
  go on after \<open>read\<close> has answered more bytes than it was asked for, which it never
  does, and read a buffer past its end. A function that would do one of them gives the
  fault instead of a result.
\<close>

datatype fault = Division_by_zero | Read_overrun | Buffer_overread

record eeprom_opt =
  i2c_addr :: "nat option"
  data_size :: nat
  skip :: nat
  zero_padding :: bool
  block_size :: nat
  page_size :: nat

text \<open>
  The SIGINT handler, and its delivery. The handler runs whenever the signal comes; the
  program reads \<open>g_abort\<close> only at the head of the transfer loop, so the model delivers
  the signal there, just before the flag is read.
\<close>

definition sigint_abort :: "'h state \<Rightarrow> 'h state" where
  "sigint_abort s = (LOG ''abort!'' s)\<lparr>g_abort := True\<rparr>"

definition deliver :: "'h env \<Rightarrow> 'h state \<Rightarrow> 'h state" where
  "deliver e s = (if sigint e (hw s) then sigint_abort s else s)"

text \<open>
  \<open>log_eeprom_progress\<close>. The arithmetic is that of \<open>size_t\<close>: the subtraction and the
  product wrap around. The quotient becomes an \<open>int\<close> of 32 bits. The parameter
  \<open>total\<close> of the source is \<open>total_sz\<close> here.
\<close>

definition log_eeprom_progress ::
  "'h env \<Rightarrow> nat \<Rightarrow> nat \<Rightarrow> string \<Rightarrow> 'h state \<Rightarrow> fault + 'h state"
where
  "log_eeprom_progress e total_sz rem msg s =
     (if total_sz = 0 then Inl Division_by_zero
      else
        (let m = 2 ^ size_bits e;
             prog = (if rem \<le> total_sz then total_sz - rem else total_sz + m - rem);
             prog_percent = sint (word_of_nat (((prog * 100) mod m) div total_sz) :: 32 word)
         in Inr (LOG_PRINT (Progress msg prog_percent prog) s)))"

definition N_ZEROS :: nat where
  "N_ZEROS = 64"

function pad_eeprom ::
  "'h env \<Rightarrow> nat \<Rightarrow> eeprom_opt \<Rightarrow> 'h state \<Rightarrow> fault + (int \<times> 'h state)"
where
  "pad_eeprom e left opt s =
     (if left = 0 then Inr (0, s)
      else
        (let n = min N_ZEROS left
         in case log_eeprom_progress e (data_size opt) (left - n) ''Padding'' s of
              Inl f \<Rightarrow> Inl f
            | Inr s1 \<Rightarrow>
                (let ((r, _), s2) = call e (Eeprom_write (replicate n 0)) s1
                 in if r < 0 then Inr (- 1, s2)
                    else pad_eeprom e (left - n) opt s2)))"
  by pat_completeness auto
termination
  by (relation "measure (\<lambda>(e, left, opt, s). left)") (auto simp: N_ZEROS_def)

definition buffer_size :: nat where
  "buffer_size = 4096"

text \<open>
  The library puts its answer at the start of the buffer it was given, at most \<open>n\<close>
  bytes of it; the rest of the buffer stays as it was.
\<close>

definition fill :: "byte list \<Rightarrow> byte list \<Rightarrow> nat \<Rightarrow> byte list" where
  "fill buffer d n = (let k = min n (length d) in take k d @ drop k buffer)"

text \<open>
  The body of the loop of \<open>rw_file_eeprom\<close>, from the variables \<open>left\<close>, \<open>ret\<close> and the
  buffer to their values after one round. \<open>rwsz\<close> is computed first; then the branch for
  \<open>write_file\<close> (EEPROM to file) or the other branch (file to EEPROM) runs.
\<close>

definition rw_body_e2f ::
  "'h env \<Rightarrow> int \<Rightarrow> eeprom_opt \<Rightarrow> string \<Rightarrow> nat \<Rightarrow> nat \<Rightarrow> int \<Rightarrow> byte list \<Rightarrow> 'h state
     \<Rightarrow> fault + (nat \<times> int \<times> byte list \<times> 'h state)"
where
  "rw_body_e2f e fd opt msg rwsz left ret buffer s =
     (case log_eeprom_progress e (data_size opt) (left - rwsz) msg s of
        Inl f \<Rightarrow> Inl f
      | Inr s1 \<Rightarrow>
          (let ((r1, d), s2) = call e (Eeprom_read rwsz) s1;
               buffer1 = fill buffer d rwsz
           in if r1 < 0 then Inr (left - rwsz, - 1, buffer1, s2)
              else
                (let ((r2, _), s3) = call e (Sys_write fd (take rwsz buffer1)) s2
                 in if r2 < 0 then Inr (left - rwsz, - 1, buffer1, s3)
                    else Inr (left - rwsz, ret, buffer1, s3))))"

definition rw_body_f2e ::
  "'h env \<Rightarrow> int \<Rightarrow> eeprom_opt \<Rightarrow> string \<Rightarrow> nat \<Rightarrow> nat \<Rightarrow> int \<Rightarrow> byte list \<Rightarrow> 'h state
     \<Rightarrow> fault + (nat \<times> int \<times> byte list \<times> 'h state)"
where
  "rw_body_f2e e fd opt msg rwsz left ret buffer s =
     (let ((rdsz, d), s1) = call e (Sys_read fd rwsz) s
      in if rdsz > int rwsz then Inl Read_overrun
         else if rdsz < 0 then Inr (left, - 1, buffer, s1)
         else
           (let buffer1 = fill buffer d (nat rdsz)
            in case log_eeprom_progress e (data_size opt) (left - nat rdsz) msg s1 of
                 Inl f \<Rightarrow> Inl f
               | Inr s2 \<Rightarrow>
                   (let ((r2, _), s3) = call e (Eeprom_write (take (nat rdsz) buffer1)) s2
                    in if r2 < 0 then Inr (left, - 1, buffer1, s3)
                       else if nat rdsz = rwsz then Inr (left - rwsz, ret, buffer1, s3)
                       else if zero_padding opt
                       then
                         (case pad_eeprom e (left - nat rdsz) opt (LOG_PRINT Newline s3) of
                            Inl f \<Rightarrow> Inl f
                          | Inr (r, s4) \<Rightarrow> Inr (0, r, buffer1, s4))
                       else Inr (0, ret, buffer1, s3))))"

definition rw_body ::
  "'h env \<Rightarrow> int \<Rightarrow> bool \<Rightarrow> eeprom_opt \<Rightarrow> string \<Rightarrow> nat \<Rightarrow> int \<Rightarrow> byte list \<Rightarrow> 'h state
     \<Rightarrow> fault + (nat \<times> int \<times> byte list \<times> 'h state)"
where
  "rw_body e fd write_file opt msg left ret buffer s =
     (let rwsz = (if left > buffer_size then buffer_size else left)
      in if write_file then rw_body_e2f e fd opt msg rwsz left ret buffer s
         else rw_body_f2e e fd opt msg rwsz left ret buffer s)"

function rw_loop ::
  "'h env \<Rightarrow> int \<Rightarrow> bool \<Rightarrow> eeprom_opt \<Rightarrow> string \<Rightarrow> nat \<Rightarrow> int \<Rightarrow> byte list \<Rightarrow> 'h state
     \<Rightarrow> fault + (int \<times> 'h state)"
where
  "rw_loop e fd write_file opt msg left ret buffer s =
     (let s0 = deliver e s
      in if left \<noteq> 0 \<and> ret = 0 \<and> \<not> g_abort s0
         then
           (case rw_body e fd write_file opt msg left ret buffer s0 of
              Inl f \<Rightarrow> Inl f
            | Inr (left', ret', buffer', s') \<Rightarrow>
                rw_loop e fd write_file opt msg left' ret' buffer' s')
         else Inr (ret, s0))"
  by pat_completeness auto
termination
proof (relation "measure (\<lambda>(e, fd, write_file, opt, msg, left, ret, buffer, s).
                   if ret = 0 then Suc left else 0)", goal_cases)
  case 1
  show ?case by simp
next
  case (2 e fd write_file opt msg left ret buffer s s0 x2 left' y ret' ya buffer' s')
  define rwsz where "rwsz = (if left > buffer_size then buffer_size else left)"
  have body: "rw_body e fd write_file opt msg left ret buffer s0
                = Inr (left', ret', buffer', s')"
    using 2 by simp
  have pos: "0 < rwsz" "rwsz \<le> left"
    using 2 by (simp_all add: buffer_size_def rwsz_def)
  have "ret' = 0 \<longrightarrow> left' < left"
  proof (cases write_file)
    case True
    then have "rw_body_e2f e fd opt msg rwsz left ret buffer s0
                 = Inr (left', ret', buffer', s')"
      using body by (simp add: rw_body_def rwsz_def)
    then have "left' = left - rwsz"
      unfolding rw_body_e2f_def
      by (auto simp: Let_def split: sum.splits prod.splits if_splits)
    with pos show ?thesis by simp
  next
    case False
    then have f: "rw_body_f2e e fd opt msg rwsz left ret buffer s0
                    = Inr (left', ret', buffer', s')"
      using body by (simp add: rw_body_def rwsz_def)
    obtain rdsz d s1 where c: "call e (Sys_read fd rwsz) s0 = ((rdsz, d), s1)"
      by (metis prod.exhaust)
    have "ret' = - 1 \<or> left' = left - rwsz \<or> left' = 0"
    proof (cases "rdsz > int rwsz \<or> rdsz < 0")
      case True
      with f c show ?thesis by (auto simp: rw_body_f2e_def)
    next
      case False
      then obtain s2 where
        l: "log_eeprom_progress e (data_size opt) (left - nat rdsz) msg s1 = Inr s2"
        using f c
        by (cases "log_eeprom_progress e (data_size opt) (left - nat rdsz) msg s1")
           (auto simp: rw_body_f2e_def)
      obtain r2 d2 s3 where
        w: "call e (Eeprom_write (take (nat rdsz) (fill buffer d (nat rdsz)))) s2
              = ((r2, d2), s3)"
        by (metis prod.exhaust)
      from f c False l w show ?thesis
        by (simp add: rw_body_f2e_def Let_def split: if_splits sum.splits prod.splits)
    qed
    with pos 2 show ?thesis by auto
  qed
  with 2 show ?case by auto
qed

definition rw_file_eeprom ::
  "'h env \<Rightarrow> int \<Rightarrow> bool \<Rightarrow> eeprom_opt \<Rightarrow> 'h state \<Rightarrow> fault + (int \<times> 'h state)"
where
  "rw_file_eeprom e fd write_file opt s =
     (let msg = (if write_file then ''Reading'' else ''Writing'');
          ((p, d), s1) = call e (Malloc buffer_size) s
      in if p = 0 then Inr (- 1, LOG ''failed to allocate buffer'' s1)
         else
           (let buffer = take buffer_size (d @ replicate buffer_size 0);
                (_, s2) = call e (Eeprom_seek (skip opt)) s1
            in case rw_loop e fd write_file opt msg (data_size opt) 0 buffer s2 of
                 Inl f \<Rightarrow> Inl f
               | Inr (ret, s3) \<Rightarrow> Inr (ret, LOG_PRINT Newline s3)))"

text \<open>
  \<open>dump_hex_data(&data[start], sz)\<close> prints \<open>sz\<close> bytes from index \<open>start\<close> on, and
  nothing when \<open>sz\<close> is zero (\<open>sz\<close> is the parameter \<open>size\<close> of the source). It reads
  every one of the \<open>sz\<close> bytes, however long the buffer they are taken from is: a window
  that reaches past the end of the buffer is a read past the end. The log entry keeps
  the window and the bytes printed.
\<close>

definition dump_hex_data :: "byte list \<Rightarrow> nat \<Rightarrow> nat \<Rightarrow> 'h state \<Rightarrow> fault + 'h state" where
  "dump_hex_data data start sz s =
     (if sz = 0 then Inr s
      else if length data < start + sz then Inl Buffer_overread
      else Inr (LOG_PRINT (Hex start sz (take sz (drop start data))) s))"

text \<open>The loop that fills the write buffer: one \<open>rand() & 0xFF\<close> for each byte.\<close>

fun fill_random :: "'h env \<Rightarrow> nat \<Rightarrow> 'h state \<Rightarrow> byte list \<times> 'h state" where
  "fill_random e 0 s = ([], s)"
| "fill_random e (Suc n) s =
     (let ((r, _), s1) = call e Rand s;
          (bs, s2) = fill_random e n s1
      in (word_of_int r # bs, s2))"

text \<open>
  \<open>full_rw_eeprom\<close> in parts, in the order of the source. First the buffer of random
  data is made, its beginning is dumped and it is written to the EEPROM: the result is
  the buffer and \<open>ret\<close>.
\<close>

definition full_rw_write ::
  "'h env \<Rightarrow> eeprom_opt \<Rightarrow> 'h state \<Rightarrow> fault + (byte list \<times> int \<times> 'h state)"
where
  "full_rw_write e opt s =
     (let dump_size = min 256 (data_size opt);
          s3 = LOG ''preparing buffers ...'' s;
          ((t, _), s4) = call e Time s3;
          (_, s5) = call e (Srand t) s4;
          (data_w, s6) = fill_random e (data_size opt) s5
      in case dump_hex_data data_w 0 dump_size
                (LOG ''beginning of the data to be written:'' s6) of
           Inl f \<Rightarrow> Inl f
         | Inr s7 \<Rightarrow>
             (let s8 = LOG ''writing to EEPROM ...'' s7;
                  (_, s9) = call e (Eeprom_seek 0) s8;
                  ((rw, _), s10) = call e (Eeprom_write data_w) s9
              in if rw < 0 then Inr (data_w, - 1, LOG ''failed to write data'' s10)
                 else Inr (data_w, 0, s10)))"

text \<open>
  Then the EEPROM is read back into the second buffer, which was filled with zeros, and
  the beginning of that buffer is dumped.
\<close>

definition full_rw_read ::
  "'h env \<Rightarrow> eeprom_opt \<Rightarrow> int \<Rightarrow> 'h state \<Rightarrow> fault + (byte list \<times> int \<times> 'h state)"
where
  "full_rw_read e opt ret s =
     (let dump_size = min 256 (data_size opt);
          data_r0 = replicate (data_size opt) 0;
          s12 = LOG ''reading the EEPROM ...'' s;
          (_, s13) = call e (Eeprom_seek 0) s12;
          ((rr, d), s14) = call e (Eeprom_read (data_size opt)) s13;
          data_r = fill data_r0 d (data_size opt);
          (ret2, s15) =
            (if rr < 0 then (- 1, LOG ''failed to read data'' s14) else (ret, s14))
      in case dump_hex_data data_r 0 dump_size
                (LOG ''beginning of the data read back:'' s15) of
           Inl f \<Rightarrow> Inl f
         | Inr s16 \<Rightarrow> Inr (data_r, ret2, s16))"

text \<open>
  The two allocations come first; with both buffers the two parts above run. The result
  is the two buffers and \<open>ret\<close>, or nothing when an allocation fails, with the state.
\<close>

definition full_rw_io ::
  "'h env \<Rightarrow> eeprom_opt \<Rightarrow> 'h state
     \<Rightarrow> fault + ((byte list \<times> byte list \<times> int) option \<times> 'h state)"
where
  "full_rw_io e opt s =
     (let ((pw, _), s1) = call e (Malloc (data_size opt)) s;
          ((pr, _), s2) = call e (Malloc (data_size opt)) s1
      in if pw = 0 \<or> pr = 0
         then
           (let s3 = (if pr = 0 then LOG ''failed to allocate read buffer'' s2 else s2);
                s4 = (if pw = 0 then LOG ''failed to allocate write buffer'' s3 else s3)
            in Inr (None, s4))
         else
           (case full_rw_write e opt s2 of
              Inl f \<Rightarrow> Inl f
            | Inr (data_w, ret1, s11) \<Rightarrow>
                (case full_rw_read e opt ret1 s11 of
                   Inl f \<Rightarrow> Inl f
                 | Inr (data_r, ret2, s16) \<Rightarrow> Inr (Some (data_w, data_r, ret2), s16))))"

text \<open>
  Then the two buffers are compared from index 0. The loop stops at the first index
  where they differ and gives that index, or runs to the end.
\<close>

fun compare_from :: "nat \<Rightarrow> byte list \<Rightarrow> byte list \<Rightarrow> nat option" where
  "compare_from i (r # rs) (w # ws) = (if r \<noteq> w then Some i else compare_from (Suc i) rs ws)"
| "compare_from i rs ws = None"

text \<open>
  At a difference the address and the start of the dump are logged and both buffers are
  dumped from that start, \<open>dump_size\<close> bytes each. \<open>ret\<close> comes from the first part.
\<close>

definition full_rw_compare ::
  "eeprom_opt \<Rightarrow> byte list \<Rightarrow> byte list \<Rightarrow> int \<Rightarrow> 'h state \<Rightarrow> fault + (int \<times> 'h state)"
where
  "full_rw_compare opt data_w data_r ret s =
     (let dump_size = min 256 (data_size opt);
          s1 = LOG ''comparing results ...'' s
      in case compare_from 0 data_r data_w of
           None \<Rightarrow> Inr (ret, if ret = 0 then LOG ''All good.'' s1 else s1)
         | Some i \<Rightarrow>
             (let addr = (if i > 128 then i - 128 else 0);
                  s2 = LOG_PRINT (Addr ''error found at address'' i) s1;
                  s3 = LOG_PRINT (Addr ''dump start at'' addr) s2
              in case dump_hex_data data_w addr dump_size (LOG ''written:'' s3) of
                   Inl f \<Rightarrow> Inl f
                 | Inr s4 \<Rightarrow>
                     (case dump_hex_data data_r addr dump_size (LOG ''read:'' s4) of
                        Inl f \<Rightarrow> Inl f
                      | Inr s5 \<Rightarrow> Inr (- 1, s5))))"

definition full_rw_eeprom ::
  "'h env \<Rightarrow> eeprom_opt \<Rightarrow> 'h state \<Rightarrow> fault + (int \<times> 'h state)"
where
  "full_rw_eeprom e opt s =
     (case full_rw_io e opt s of
        Inl f \<Rightarrow> Inl f
      | Inr (None, s1) \<Rightarrow> Inr (- 1, s1)
      | Inr (Some (data_w, data_r, ret), s1) \<Rightarrow> full_rw_compare opt data_w data_r ret s1)"

text \<open>
  \<open>run_eeprom\<close>. The arguments are those after the command name: the EEPROM mode, the
  command, the file name. \<open>popt\<close> stands for the option string and its parsing by
  \<open>parse_eeprom_opt\<close>: None when no option string was given, and otherwise the value
  returned by the parser with the options it left in \<open>eeprom_opt\<close>. Setting the terminal
  for the question of \<open>full_rw\<close> is a call to the world. Each \<open>let\<close> is used only on the
  path where the source computes it. \<open>eeprom_get_size\<close> answers a \<open>size_t\<close>: an answer of
  the world below zero is read as zero.
\<close>

definition eeprom_opt_init :: eeprom_opt where
  "eeprom_opt_init =
     \<lparr>i2c_addr = None, data_size = 0, skip = 0, zero_padding = False,
      block_size = 0, page_size = 0\<rparr>"

definition STDIN_FILENO :: int where
  "STDIN_FILENO = 0"

definition STDOUT_FILENO :: int where
  "STDOUT_FILENO = 1"

text \<open>The part of \<open>run_eeprom\<close> for the command \<open>full_rw\<close>.\<close>

definition run_eeprom_full_rw ::
  "'h env \<Rightarrow> eeprom_opt \<Rightarrow> 'h state \<Rightarrow> fault + (int \<times> 'h state)"
where
  "run_eeprom_full_rw e opt s =
     (let ((b, _), s1) = call e Disable_stdin_buffering s;
          s2 = (if b < 0 then LOG ''Warning: failed to disable input buffering'' s1 else s1);
          s3 = LOG_PRINT (Msg ''Warning: this will overwrite the EEPROM data. Continue ? [N/y] '') s2;
          ((c, _), s4) = call e Fgetc_stdin s3;
          (_, s5) = call e Putchar s4;
          ((r, _), s6) = call e Restore_stdin_termios s5;
          s7 = (if r < 0 then LOG ''Warning: failed to restore input buffering'' s6 else s6)
      in if (word_of_int c :: byte) = of_char CHR ''y''
         then full_rw_eeprom e opt s7
         else Inr (- 1, LOG_PRINT (Msg ''aborted'') s7))"

text \<open>The part of \<open>run_eeprom\<close> for the commands \<open>e2f\<close> and \<open>f2e\<close>.\<close>

definition run_eeprom_file ::
  "'h env \<Rightarrow> bool \<Rightarrow> string list \<Rightarrow> eeprom_opt \<Rightarrow> 'h state \<Rightarrow> fault + (int \<times> 'h state)"
where
  "run_eeprom_file e write_file argv opt s =
     (if length argv < 3
      then rw_file_eeprom e (if write_file then STDOUT_FILENO else STDIN_FILENO)
             write_file opt s
      else
        (let f_name = argv ! 2;
             ((fd, _), s1) = call e (Sys_open f_name write_file) s
         in if fd < 0
            then Inr (- 1, LOG (''failed to open the file ('' @ f_name @ '')'') s1)
            else
              (case rw_file_eeprom e fd write_file opt s1 of
                 Inl f \<Rightarrow> Inl f
               | Inr (ret, s2) \<Rightarrow>
                   (let s3 = (if write_file
                              then (let ((m, _), s') = call e (Sys_fchmod fd) s2
                                    in if m < 0 then LOG ''Warning: chmod failed'' s' else s')
                              else s2);
                        (_, s4) = call e (Sys_close fd) s3
                    in Inr (ret, s4)))))"

definition run_eeprom ::
  "'h env \<Rightarrow> (int \<times> eeprom_opt) option \<Rightarrow> string list \<Rightarrow> 'h state \<Rightarrow> fault + (int \<times> 'h state)"
where
  "run_eeprom e popt argv s =
     (if length argv < 2 then Inr (- 1, LOG ''invalid arguments'' s)
      else
        (let eeprom_mode = argv ! 0;
             cmd_str = argv ! 1;
             (parsed, opt0) = (case popt of None \<Rightarrow> (0, eeprom_opt_init) | Some po \<Rightarrow> po);
             s1 = (if parsed = 0 \<and> \<not> eeprom s
                   then (let ((p, _), s') = call e (Eeprom_init eeprom_mode) s
                         in s'\<lparr>eeprom := (p \<noteq> 0)\<rparr>)
                   else s)
         in if parsed \<noteq> 0 then Inr (- 1, s)
            else if \<not> eeprom s1 then Inr (- 1, s1)
            else
              (let ((esize, _), s2) = call e Eeprom_get_size s1;
                   opt = (if data_size opt0 = 0 then opt0\<lparr>data_size := nat esize\<rparr> else opt0);
                   s3 = (if block_size opt \<noteq> 0
                         then snd (call e (Eeprom_set_block_size (block_size opt)) s2)
                         else s2);
                   s4 = (if page_size opt \<noteq> 0
                         then snd (call e (Eeprom_set_page_size (page_size opt)) s3)
                         else s3)
               in if data_size opt0 \<noteq> 0 \<and> data_size opt0 > nat esize
                  then Inr (- 1, LOG ''data size bigger than EEPROM size'' s2)
                  else if cmd_str = ''full_rw'' then run_eeprom_full_rw e opt s4
                  else if cmd_str = ''e2f'' then run_eeprom_file e True argv opt s4
                  else if cmd_str = ''f2e'' then run_eeprom_file e False argv opt s4
                  else Inr (- 1, LOG ''invalid arguments'' s4))))"

section \<open>Stating the behaviour of a step sequence\<close>

text \<open>
  A procedure made of \<open>STEP\<close>s is a list of commands with their labels; \<open>run_steps\<close> runs
  such a list the way the nested macros do.
\<close>

fun run_steps :: "'h env \<Rightarrow> (ext_call \<times> string) list \<Rightarrow> 'h state \<Rightarrow> int \<times> 'h state" where
  "run_steps e [] s = (0, s)"
| "run_steps e ((c, m) # r) s = STEP e c m (run_steps e r) s"

definition power_on_steps :: "byte \<Rightarrow> (ext_call \<times> string) list" where
  "power_on_steps vcom =
     [(Cpld_set_switch CPLD_BPCOM_CLAMP 1, ''BPCOM clamp''),
      (Cpld_set_switch CPLD_HVEN 1, ''HV enable''),
      (Max17135_wait_for_pok, ''wait for POK''),
      (Cpld_set_switch CPLD_COM_SW_CLOSE 0, ''COM open''),
      (Cpld_set_switch CPLD_COM_SW_EN 1, ''COM enable''),
      (Cpld_set_switch CPLD_COM_PSU 1, ''COM PSU on''),
      (Dac5820_output DAC5820_CH_A vcom, ''VCOM DAC value''),
      (Dac5820_set_power DAC5820_CH_A DAC5820_POW_ON, ''DAC power on''),
      (Cpld_set_switch CPLD_COM_SW_CLOSE 1, ''COM close'')]"

definition power_off_steps :: "(ext_call \<times> string) list" where
  "power_off_steps =
     [(Cpld_set_switch CPLD_COM_SW_CLOSE 0, ''COM open''),
      (Cpld_set_switch CPLD_COM_SW_EN 0, ''COM disable''),
      (Dac5820_set_power DAC5820_CH_A DAC5820_POW_OFF_100K, ''DAC power off''),
      (Cpld_set_switch CPLD_COM_PSU 0, ''COM PSU off''),
      (Cpld_set_switch CPLD_HVEN 0, ''HV disable'')]"

text \<open>The state in which the first step of a procedure runs: the handles are there.\<close>

definition power_on_require :: "'h env \<Rightarrow> 'h state \<Rightarrow> 'h state" where
  "power_on_require e s = require_dac e (require_max17135 e (require_cpld e s))"

definition power_off_require :: "'h env \<Rightarrow> 'h state \<Rightarrow> 'h state" where
  "power_off_require e s = require_dac e (require_cpld e s)"

text \<open>
  What the world answers to a list of calls made one after the other from the world
  \<open>h\<close>, and the world they leave. \<open>n_ok\<close> counts the answers before the first negative
  one.
\<close>

fun step_results :: "'h env \<Rightarrow> 'h \<Rightarrow> ext_call list \<Rightarrow> int list" where
  "step_results e h [] = []"
| "step_results e h (c # cs) =
     fst (fst (respond e h c)) # step_results e (snd (respond e h c)) cs"

fun world_after :: "'h env \<Rightarrow> 'h \<Rightarrow> ext_call list \<Rightarrow> 'h" where
  "world_after e h [] = h"
| "world_after e h (c # cs) = world_after e (snd (respond e h c)) cs"

definition n_ok :: "'h env \<Rightarrow> 'h \<Rightarrow> ext_call list \<Rightarrow> nat" where
  "n_ok e h cs = length (takeWhile (\<lambda>r. 0 \<le> r) (step_results e h cs))"

definition step_ok :: "ext_call \<times> string \<Rightarrow> log_entry" where
  "step_ok p = Msg (snd p @ '' ok'')"

definition step_failed :: "ext_call \<times> string \<Rightarrow> log_entry" where
  "step_failed p = Msg (snd p @ '' failed (ERROR)'')"

definition steps_outcome ::
  "'h env \<Rightarrow> (ext_call \<times> string) list \<Rightarrow> 'h state \<Rightarrow> int \<times> 'h state"
where
  "steps_outcome e steps s =
     (let cs = map fst steps;
          n = n_ok e (hw s) cs
      in if n = length steps
         then (0, s\<lparr>hw := world_after e (hw s) cs, trace := trace s @ cs,
                    logs := logs s @ map step_ok steps\<rparr>)
         else (step_results e (hw s) cs ! n,
               s\<lparr>hw := world_after e (hw s) (take (Suc n) cs),
                 trace := trace s @ take (Suc n) cs,
                 logs := logs s @ map step_ok (take n steps) @ [step_failed (steps ! n)]\<rparr>))"

section \<open>Stating the behaviour of a transfer\<close>

text \<open>
  The state in which \<open>rw_file_eeprom\<close> reaches its loop for the first time: the buffer
  is allocated and the EEPROM is at the offset to start from. Nothing when the allocation
  fails.
\<close>

definition rw_enter :: "'h env \<Rightarrow> eeprom_opt \<Rightarrow> 'h state \<Rightarrow> (byte list \<times> 'h state) option" where
  "rw_enter e opt s =
     (let ((p, d), s1) = call e (Malloc buffer_size) s
      in if p = 0 then None
         else Some (take buffer_size (d @ replicate buffer_size 0),
                    snd (call e (Eeprom_seek (skip opt)) s1)))"

text \<open>
  \<open>rw_chunks k\<close> runs the loop of \<open>rw_file_eeprom\<close> for exactly \<open>k\<close> rounds and gives the
  variables after them; it gives nothing when the loop ends before or a round ends in a
  fault.
\<close>

fun rw_chunks ::
  "'h env \<Rightarrow> int \<Rightarrow> bool \<Rightarrow> eeprom_opt \<Rightarrow> string \<Rightarrow> nat \<Rightarrow> nat \<Rightarrow> int \<Rightarrow> byte list \<Rightarrow> 'h state
     \<Rightarrow> (nat \<times> int \<times> byte list \<times> 'h state) option"
where
  "rw_chunks e fd write_file opt msg 0 left ret buffer s = Some (left, ret, buffer, s)"
| "rw_chunks e fd write_file opt msg (Suc k) left ret buffer s =
     (let s0 = deliver e s
      in if left \<noteq> 0 \<and> ret = 0 \<and> \<not> g_abort s0
         then
           (case rw_body e fd write_file opt msg left ret buffer s0 of
              Inl f \<Rightarrow> None
            | Inr (left', ret', buffer', s') \<Rightarrow>
                rw_chunks e fd write_file opt msg k left' ret' buffer' s')
         else None)"

text \<open>The bytes handed to \<open>write\<close>, and those handed to \<open>eeprom_write\<close>, in a list of calls.\<close>

definition sink_bytes :: "ext_call list \<Rightarrow> byte list" where
  "sink_bytes cs = concat (map (\<lambda>c. case c of Sys_write fd bs \<Rightarrow> bs | _ \<Rightarrow> []) cs)"

definition eeprom_bytes :: "ext_call list \<Rightarrow> byte list" where
  "eeprom_bytes cs = concat (map (\<lambda>c. case c of Eeprom_write bs \<Rightarrow> bs | _ \<Rightarrow> []) cs)"


text \<open>
  The progress reports among the entries of a log, each as its percentage and its byte
  count; and the number of bytes a call moves to or from the EEPROM.
\<close>

fun reported :: "log_entry list \<Rightarrow> (int \<times> nat) list" where
  "reported [] = []"
| "reported (Progress m p b # xs) = (p, b) # reported xs"
| "reported (x # xs) = reported xs"

definition eeprom_count :: "ext_call \<Rightarrow> nat option" where
  "eeprom_count c =
     (case c of
        Eeprom_read n \<Rightarrow> Some n
      | Eeprom_write bs \<Rightarrow> Some (length bs)
      | _ \<Rightarrow> None)"

definition moved_bytes :: "ext_call list \<Rightarrow> nat" where
  "moved_bytes cs = sum_list (map (\<lambda>c. case eeprom_count c of None \<Rightarrow> 0 | Some n \<Rightarrow> n) cs)"

text \<open>
  The reports that go with a list of calls made after \<open>moved\<close> bytes were moved: one for
  each call that moves bytes to or from the EEPROM, with the number of bytes moved up to
  the end of that call and the floor of that number times 100 over \<open>total_sz\<close>.
\<close>

fun expected_reports :: "nat \<Rightarrow> nat \<Rightarrow> ext_call list \<Rightarrow> (int \<times> nat) list" where
  "expected_reports total_sz moved [] = []"
| "expected_reports total_sz moved (c # cs) =
     (case eeprom_count c of
        None \<Rightarrow> expected_reports total_sz moved cs
      | Some n \<Rightarrow>
          (int ((moved + n) * 100 div total_sz), moved + n)
            # expected_reports total_sz (moved + n) cs)"

text \<open>
  From the state \<open>s\<close> to the state \<open>s'\<close> the log has grown by \<open>xs\<close> and the list of calls by
  \<open>cs\<close>, and the progress reports in \<open>xs\<close> are those that go with \<open>cs\<close>.
\<close>

definition reports_added ::
  "nat \<Rightarrow> nat \<Rightarrow> 'h state \<Rightarrow> 'h state \<Rightarrow> log_entry list \<Rightarrow> ext_call list \<Rightarrow> bool"
where
  "reports_added total_sz moved s s' xs cs =
     (logs s' = logs s @ xs \<and> trace s' = trace s @ cs
      \<and> reported xs = expected_reports total_sz moved cs)"

text \<open>The same, with what was added read from the two states.\<close>

definition reports_match :: "nat \<Rightarrow> nat \<Rightarrow> 'h state \<Rightarrow> 'h state \<Rightarrow> bool" where
  "reports_match total_sz moved s s' =
     reports_added total_sz moved s s'
       (drop (length (logs s)) (logs s')) (drop (length (trace s)) (trace s'))"

text \<open>
  The state in which \<open>run_eeprom\<close> asks for the size of the EEPROM: the handle has been
  made if there was none.
\<close>

definition eeprom_ready :: "'h env \<Rightarrow> string \<Rightarrow> 'h state \<Rightarrow> 'h state" where
  "eeprom_ready e eeprom_mode s =
     (if \<not> eeprom s
      then (let ((p, _), s') = call e (Eeprom_init eeprom_mode) s in s'\<lparr>eeprom := (p \<noteq> 0)\<rparr>)
      else s)"

section \<open>Worlds to run the model in\<close>

text \<open>
  Reading a decimal number the way \<open>atoi\<close> does for a string made of an optional minus
  sign and digits.
\<close>

fun digits_val :: "int \<Rightarrow> string \<Rightarrow> int" where
  "digits_val acc [] = acc"
| "digits_val acc (c # cs) =
     (let n = (of_char c :: nat)
      in if 48 \<le> n \<and> n \<le> 57 then digits_val (10 * acc + (int n - 48)) cs else acc)"

definition atoi_dec :: "string \<Rightarrow> int" where
  "atoi_dec a = (case a of [] \<Rightarrow> 0 | c # cs \<Rightarrow>
     if c = CHR ''-'' then - digits_val 0 cs else digits_val 0 a)"

text \<open>
  A world that counts the calls made: call number \<open>k\<close> (from 0) answers \<open>r\<close>; any other
  call answers 0, or 1 (a handle) when it is an \<open>_init\<close>; no buffer is filled.
\<close>

definition is_init :: "ext_call \<Rightarrow> bool" where
  "is_init c =
     (case c of
        Cpld_init \<Rightarrow> True
      | Max17135_init \<Rightarrow> True
      | Dac5820_init \<Rightarrow> True
      | Eeprom_init m \<Rightarrow> True
      | _ \<Rightarrow> False)"

definition answer_at :: "nat \<Rightarrow> int \<Rightarrow> nat env" where
  "answer_at k r =
     \<lparr>respond = (\<lambda>h c. ((if h = k then r else if is_init c then 1 else 0, []), Suc h)),
      sigint = (\<lambda>h. False),
      atoi = atoi_dec,
      size_bits = 32\<rparr>"

text \<open>A state with every handle open, and one with none.\<close>

definition opened :: "'h \<Rightarrow> 'h state" where
  "opened h =
     \<lparr>hw = h, trace = [], logs = [], g_abort = False,
      cpld = True, max17135 = True, dac = True, eeprom = True\<rparr>"

definition fresh :: "'h \<Rightarrow> 'h state" where
  "fresh h =
     \<lparr>hw = h, trace = [], logs = [], g_abort = False,
      cpld = False, max17135 = False, dac = False, eeprom = False\<rparr>"

text \<open>
  A world with an EEPROM, an input stream and an output. The EEPROM holds \<open>mem\<close> and
  reads and writes at \<open>pos\<close>; \<open>read\<close> takes from \<open>src\<close>; \<open>write\<close> adds to \<open>sink\<close>.
  SIGINT has come once \<open>ticks\<close>, the number of calls answered, reaches \<open>sigint_at\<close>.
\<close>

record eworld =
  mem :: "byte list"
  pos :: nat
  src :: "byte list"
  sink :: "byte list"
  ticks :: nat
  sigint_at :: nat

definition eeprom_respond :: "eworld \<Rightarrow> ext_call \<Rightarrow> (int \<times> byte list) \<times> eworld" where
  "eeprom_respond h c =
     (let h' = h\<lparr>ticks := Suc (ticks h)\<rparr>
      in case c of
           Eeprom_seek p \<Rightarrow> ((0, []), h'\<lparr>pos := p\<rparr>)
         | Eeprom_read n \<Rightarrow>
             ((0, take n (drop (pos h) (mem h))), h'\<lparr>pos := pos h + n\<rparr>)
         | Eeprom_write bs \<Rightarrow>
             ((0, []),
              h'\<lparr>mem := take (pos h) (mem h) @ bs @ drop (pos h + length bs) (mem h),
                 pos := pos h + length bs\<rparr>)
         | Eeprom_get_size \<Rightarrow> ((int (length (mem h)), []), h')
         | Sys_read fd n \<Rightarrow>
             ((int (min n (length (src h))), take n (src h)), h'\<lparr>src := drop n (src h)\<rparr>)
         | Sys_write fd bs \<Rightarrow> ((int (length bs), []), h'\<lparr>sink := sink h @ bs\<rparr>)
         | Malloc n \<Rightarrow> ((1, []), h')
         | _ \<Rightarrow> ((if is_init c then 1 else 0, []), h'))"

definition eeprom_world :: "eworld env" where
  "eeprom_world =
     \<lparr>respond = eeprom_respond,
      sigint = (\<lambda>h. sigint_at h \<le> ticks h),
      atoi = atoi_dec,
      size_bits = 32\<rparr>"

definition eworld_init :: "byte list \<Rightarrow> byte list \<Rightarrow> eworld" where
  "eworld_init m i =
     \<lparr>mem = m, pos = 0, src = i, sink = [], ticks = 0, sigint_at = 1000000\<rparr>"

text \<open>
  A world whose answer to a call depends on the call alone. It counts the calls, and
  SIGINT has come once \<open>sig\<close> calls were answered.
\<close>

definition scripted :: "(ext_call \<Rightarrow> int \<times> byte list) \<Rightarrow> nat \<Rightarrow> nat env" where
  "scripted f sig =
     \<lparr>respond = (\<lambda>h c. (f c, Suc h)),
      sigint = (\<lambda>h. sig \<le> h),
      atoi = atoi_dec,
      size_bits = 32\<rparr>"

text \<open>
  Every call succeeds: an allocation or an \<open>_init\<close> gives a pointer, \<open>write\<close> takes all
  the bytes, anything else answers 0.
\<close>

definition plain :: "ext_call \<Rightarrow> int \<times> byte list" where
  "plain c =
     (case c of
        Malloc n \<Rightarrow> (1, [])
      | Sys_write fd bs \<Rightarrow> (int (length bs), [])
      | _ \<Rightarrow> (if is_init c then 1 else 0, []))"

text \<open>The EEPROM gives 3 bytes whatever it is asked for, and \<open>write\<close> takes one byte.\<close>

definition short_counts :: "ext_call \<Rightarrow> int \<times> byte list" where
  "short_counts c =
     (case c of
        Eeprom_read n \<Rightarrow> (3, [1, 2, 3])
      | Sys_write fd bs \<Rightarrow> (1, [])
      | _ \<Rightarrow> plain c)"

text \<open>The input gives 1000 bytes whatever it is asked for.\<close>

definition short_source :: "ext_call \<Rightarrow> int \<times> byte list" where
  "short_source c =
     (case c of
        Sys_read fd n \<Rightarrow> (1000, replicate 1000 171)
      | _ \<Rightarrow> plain c)"

definition job :: "nat \<Rightarrow> eeprom_opt" where
  "job n = eeprom_opt_init\<lparr>data_size := n\<rparr>"

text \<open>
  For the self-test: \<open>rand\<close> gives 7 and the EEPROM reads back the bytes \<open>back\<close>.
\<close>

definition selftest :: "byte list \<Rightarrow> ext_call \<Rightarrow> int \<times> byte list" where
  "selftest back c =
     (case c of
        Rand \<Rightarrow> (7, [])
      | Eeprom_read n \<Rightarrow> (0, take n back)
      | _ \<Rightarrow> plain c)"

text \<open>The same, with \<open>eeprom_write\<close> answering -1.\<close>

definition selftest_write_fails :: "byte list \<Rightarrow> ext_call \<Rightarrow> int \<times> byte list" where
  "selftest_write_fails back c =
     (case c of
        Eeprom_write bs \<Rightarrow> (- 1, [])
      | _ \<Rightarrow> selftest back c)"

section \<open>Power sequences: proofs\<close>

lemma length_step_results [simp]: "length (step_results e h cs) = length cs"
  by (induction cs arbitrary: h) auto

lemma n_ok_le: "n_ok e h cs \<le> length cs"
  unfolding n_ok_def by (metis length_step_results length_takeWhile_le)

lemma run_steps_outcome: "run_steps e steps s = steps_outcome e steps s"
proof (induction steps arbitrary: s)
  case Nil
  show ?case by (simp add: steps_outcome_def n_ok_def)
next
  case (Cons p steps)
  obtain c m where p: "p = (c, m)" by (cases p)
  obtain r d h' where r: "respond e (hw s) c = ((r, d), h')" by (metis prod.exhaust)
  show ?case
  proof (cases "r < 0")
    case True
    then show ?thesis using r p
      by (simp add: STEP_def call_def LOG_def steps_outcome_def n_ok_def step_failed_def)
  next
    case False
    then show ?thesis using r p Cons.IH
      by (simp add: STEP_def call_def LOG_def steps_outcome_def n_ok_def step_ok_def Let_def)
  qed
qed

lemma run_steps_Nil_fun: "run_steps e [] = (\<lambda>s. (0, s))"
  by (rule ext) simp

lemma run_steps_Cons_fun: "run_steps e ((c, m) # r) = STEP e c m (run_steps e r)"
  by (rule ext) simp

lemma power_on_seq0_steps:
  "power_on_seq0 e vcom s =
     (let s3 = power_on_require e s
      in if \<not> cpld s3 \<or> \<not> max17135 s3 then (- 1, s3)
         else run_steps e (power_on_steps vcom) s3)"
  by (simp add: power_on_seq0_def power_on_require_def power_on_steps_def Let_def
      DAC_CH_def DAC_ON_def run_steps_Nil_fun run_steps_Cons_fun del: run_steps.simps)

lemma power_off_seq0_steps:
  "power_off_seq0 e s =
     (let s2 = power_off_require e s
      in if \<not> cpld s2 then (- 1, s2)
         else run_steps e power_off_steps s2)"
  by (simp add: power_off_seq0_def power_off_require_def power_off_steps_def Let_def
      DAC_CH_def DAC_OFF_def run_steps_Nil_fun run_steps_Cons_fun del: run_steps.simps)

lemma n_ok_first_failure:
  assumes "i < length cs" "\<forall>j<i. 0 \<le> step_results e h cs ! j" "step_results e h cs ! i < 0"
  shows "n_ok e h cs = i"
proof -
  have "takeWhile (\<lambda>r. 0 \<le> r) (step_results e h cs) = take i (step_results e h cs)"
    using assms by (intro takeWhile_eq_take_P_nth) auto
  then show ?thesis using assms(1) by (simp add: n_ok_def)
qed

lemma n_ok_all: "n_ok e h cs = length cs \<longleftrightarrow> list_all (\<lambda>r. 0 \<le> r) (step_results e h cs)"
proof -
  have "length (takeWhile (\<lambda>r. 0 \<le> r) (step_results e h cs)) = length (step_results e h cs)
        \<longleftrightarrow> (\<forall>x\<in>set (step_results e h cs). 0 \<le> x)"
    by (metis length_takeWhile_le takeWhile_eq_all_conv takeWhile_eq_take take_all_iff le_refl)
  then show ?thesis by (simp add: n_ok_def list_all_iff)
qed

lemma steps_fail_at:
  assumes "i < length steps"
    and "\<forall>j<i. 0 \<le> step_results e (hw s) (map fst steps) ! j"
    and "step_results e (hw s) (map fst steps) ! i < 0"
  shows "run_steps e steps s =
     (step_results e (hw s) (map fst steps) ! i,
      s\<lparr>hw := world_after e (hw s) (take (Suc i) (map fst steps)),
        trace := trace s @ take (Suc i) (map fst steps),
        logs := logs s @ map step_ok (take i steps) @ [step_failed (steps ! i)]\<rparr>)"
proof -
  have "n_ok e (hw s) (map fst steps) = i"
    using assms by (intro n_ok_first_failure) auto
  then show ?thesis using assms(1)
    by (simp add: run_steps_outcome steps_outcome_def Let_def)
qed

text \<open>
  C1. In a power-on or power-off run whose handles are there, let step \<open>i\<close> be the first
  whose primitive answers a negative value. Then the procedure returns that value, the
  calls made are the steps up to and including step \<open>i\<close>, each made once and in order,
  and the log ends with the label of step \<open>i\<close> marked as failed, after one \<open>ok\<close> line
  for each step before it.
\<close>

theorem power_seq_fail_fast:
  "(let s3 = power_on_require e s;
        steps = power_on_steps vcom;
        rs = step_results e (hw s3) (map fst steps)
    in cpld s3 \<and> max17135 s3 \<and> i < 9 \<and> (\<forall>j<i. 0 \<le> rs ! j) \<and> rs ! i < 0 \<longrightarrow>
       power_on_seq0 e vcom s =
         (rs ! i,
          s3\<lparr>hw := world_after e (hw s3) (take (Suc i) (map fst steps)),
             trace := trace s3 @ take (Suc i) (map fst steps),
             logs := logs s3 @ map step_ok (take i steps) @ [step_failed (steps ! i)]\<rparr>))
   \<and>
   (let s2 = power_off_require e s;
        steps = power_off_steps;
        rs = step_results e (hw s2) (map fst steps)
    in cpld s2 \<and> i < 5 \<and> (\<forall>j<i. 0 \<le> rs ! j) \<and> rs ! i < 0 \<longrightarrow>
       power_off_seq0 e s =
         (rs ! i,
          s2\<lparr>hw := world_after e (hw s2) (take (Suc i) (map fst steps)),
             trace := trace s2 @ take (Suc i) (map fst steps),
             logs := logs s2 @ map step_ok (take i steps) @ [step_failed (steps ! i)]\<rparr>))"
proof -
  have on9: "length (power_on_steps vcom) = 9" by (simp add: power_on_steps_def)
  have off5: "length power_off_steps = 5" by (simp add: power_off_steps_def)
  show ?thesis
    unfolding Let_def power_on_seq0_steps power_off_seq0_steps
    using steps_fail_at [of i "power_on_steps vcom" e "power_on_require e s"]
      steps_fail_at [of i power_off_steps e "power_off_require e s"]
    by (simp add: on9 off5)
qed


text \<open>
  A world whose third call fails: power-on stops at \<open>wait for POK\<close> with no DAC call,
  power-off stops at \<open>DAC power off\<close>.
\<close>

theorem power_seq_fail_fast_witness:
  "power_on_seq0 (answer_at 2 (- 5)) 100 (opened 0) =
     (- 5, (opened 0)\<lparr>hw := 3,
        trace := [Cpld_set_switch CPLD_BPCOM_CLAMP 1, Cpld_set_switch CPLD_HVEN 1,
                  Max17135_wait_for_pok],
        logs := [Msg ''BPCOM clamp ok'', Msg ''HV enable ok'',
                 Msg ''wait for POK failed (ERROR)'']\<rparr>)
   \<and> power_off_seq0 (answer_at 2 (- 5)) (opened 0) =
     (- 5, (opened 0)\<lparr>hw := 3,
        trace := [Cpld_set_switch CPLD_COM_SW_CLOSE 0, Cpld_set_switch CPLD_COM_SW_EN 0,
                  Dac5820_set_power DAC5820_CH_A DAC5820_POW_OFF_100K],
        logs := [Msg ''COM open ok'', Msg ''COM disable ok'',
                 Msg ''DAC power off failed (ERROR)'']\<rparr>)"
  using power_seq_fail_fast [of "answer_at 2 (- 5)" "opened 0" 100 2]
  by (simp add: Let_def power_on_require_def power_off_require_def require_cpld_def
      require_max17135_def require_dac_def opened_def answer_at_def is_init_def power_on_steps_def
      power_off_steps_def step_ok_def step_failed_def less_Suc_eq numeral_2_eq_2)

lemma steps_trace_prefix:
  "\<exists>n\<le>length steps. trace (snd (run_steps e steps s)) = trace s @ take n (map fst steps)"
proof (cases "n_ok e (hw s) (map fst steps) = length steps")
  case True
  then show ?thesis
    by (intro exI [of _ "length steps"]) (simp add: run_steps_outcome steps_outcome_def Let_def)
next
  case False
  with n_ok_le [of e "hw s" "map fst steps"]
  have "Suc (n_ok e (hw s) (map fst steps)) \<le> length steps" by simp
  with False show ?thesis
    by (intro exI [of _ "Suc (n_ok e (hw s) (map fst steps))"])
       (simp add: run_steps_outcome steps_outcome_def Let_def)
qed

lemma steps_success_iff:
  "fst (run_steps e steps s) = 0 \<longleftrightarrow>
     list_all (\<lambda>r. 0 \<le> r) (step_results e (hw s) (map fst steps))"
proof (cases "n_ok e (hw s) (map fst steps) = length steps")
  case True
  then show ?thesis using n_ok_all [of e "hw s" "map fst steps"]
    by (simp add: run_steps_outcome steps_outcome_def Let_def)
next
  case False
  let ?rs = "step_results e (hw s) (map fst steps)"
  let ?n = "n_ok e (hw s) (map fst steps)"
  have n: "?n < length ?rs" using False n_ok_le [of e "hw s" "map fst steps"] by simp
  have "\<not> 0 \<le> ?rs ! ?n"
    using n nth_length_takeWhile [of "\<lambda>r. 0 \<le> r" ?rs] by (simp add: n_ok_def)
  moreover have "\<not> list_all (\<lambda>r. 0 \<le> r) ?rs"
    using False n_ok_all [of e "hw s" "map fst steps"] by simp
  ultimately show ?thesis using False
    by (simp add: run_steps_outcome steps_outcome_def Let_def)
qed

lemma steps_success_trace:
  "fst (run_steps e steps s) = 0 \<Longrightarrow>
   trace (snd (run_steps e steps s)) = trace s @ map fst steps"
  using steps_success_iff [of e steps s] n_ok_all [of e "hw s" "map fst steps"]
  by (simp add: run_steps_outcome steps_outcome_def Let_def split: if_splits)

text \<open>
  C2. Power-on runs nine device operations in this order: BPCOM clamp on, HV rail on,
  wait for power-OK, VCOM switch open, VCOM switch driver on, VCOM supply on, the VCOM
  value to DAC channel A, DAC channel A power on, VCOM switch closed. It returns 0 exactly
  when the two handles it checks are there and all nine answer a non-negative value, and
  then the calls it made are exactly the nine; in every run the calls made are an initial
  part of the nine, so that no step is skipped, moved or run twice. \<open>s3\<close> is the state
  once the handles are opened, which is the state given when they are open already.
\<close>

theorem power_on_seq0_nine_operations:
  "let s3 = power_on_require e s;
       ops = [Cpld_set_switch CPLD_BPCOM_CLAMP 1,
              Cpld_set_switch CPLD_HVEN 1,
              Max17135_wait_for_pok,
              Cpld_set_switch CPLD_COM_SW_CLOSE 0,
              Cpld_set_switch CPLD_COM_SW_EN 1,
              Cpld_set_switch CPLD_COM_PSU 1,
              Dac5820_output DAC5820_CH_A vcom,
              Dac5820_set_power DAC5820_CH_A DAC5820_POW_ON,
              Cpld_set_switch CPLD_COM_SW_CLOSE 1];
       r = fst (power_on_seq0 e vcom s);
       s' = snd (power_on_seq0 e vcom s)
   in (r = 0 \<longleftrightarrow>
         cpld s3 \<and> max17135 s3 \<and> list_all (\<lambda>x. 0 \<le> x) (step_results e (hw s3) ops))
    \<and> (r = 0 \<longrightarrow> trace s' = trace s3 @ ops)
    \<and> (\<exists>n\<le>9. trace s' = trace s3 @ take n ops)"
proof -
  let ?steps = "power_on_steps vcom"
  let ?s3 = "power_on_require e s"
  have ops: "map fst ?steps =
      [Cpld_set_switch CPLD_BPCOM_CLAMP 1, Cpld_set_switch CPLD_HVEN 1, Max17135_wait_for_pok,
       Cpld_set_switch CPLD_COM_SW_CLOSE 0, Cpld_set_switch CPLD_COM_SW_EN 1,
       Cpld_set_switch CPLD_COM_PSU 1, Dac5820_output DAC5820_CH_A vcom,
       Dac5820_set_power DAC5820_CH_A DAC5820_POW_ON, Cpld_set_switch CPLD_COM_SW_CLOSE 1]"
    by (simp add: power_on_steps_def)
  have len: "length ?steps = 9" by (simp add: power_on_steps_def)
  show ?thesis
  proof (cases "cpld ?s3 \<and> max17135 ?s3")
    case True
    then have run: "power_on_seq0 e vcom s = run_steps e ?steps ?s3"
      by (simp add: power_on_seq0_steps Let_def)
    show ?thesis
      unfolding Let_def run ops [symmetric]
      using True steps_success_iff [of e ?steps ?s3] steps_success_trace [of e ?steps ?s3]
        steps_trace_prefix [of ?steps e ?s3]
      by (simp add: len)
  next
    case False
    then have run: "power_on_seq0 e vcom s = (- 1, ?s3)"
      by (auto simp add: power_on_seq0_steps Let_def)
    show ?thesis
      unfolding Let_def run using False by (auto intro: exI [of _ 0])
  qed
qed


text \<open>
  A world where every call succeeds, started with no handle open: the three handles are
  opened, then the nine operations run. A world where the seventh call fails gives a
  failure.
\<close>

theorem power_on_seq0_nine_operations_witness:
  "fst (power_on_seq0 (answer_at 100 0) 77 (fresh 0)) = 0
   \<and> trace (snd (power_on_seq0 (answer_at 100 0) 77 (fresh 0))) =
      [Cpld_init, Max17135_init, Dac5820_init,
       Cpld_set_switch CPLD_BPCOM_CLAMP 1, Cpld_set_switch CPLD_HVEN 1, Max17135_wait_for_pok,
       Cpld_set_switch CPLD_COM_SW_CLOSE 0, Cpld_set_switch CPLD_COM_SW_EN 1,
       Cpld_set_switch CPLD_COM_PSU 1, Dac5820_output DAC5820_CH_A 77,
       Dac5820_set_power DAC5820_CH_A DAC5820_POW_ON, Cpld_set_switch CPLD_COM_SW_CLOSE 1]
   \<and> fst (power_on_seq0 (answer_at 6 (- 1)) 77 (fresh 0)) \<noteq> 0"
  using power_on_seq0_nine_operations [of "answer_at 100 0" "fresh 0" 77]
    power_on_seq0_nine_operations [of "answer_at 6 (- 1)" "fresh 0" 77]
  by (simp add: Let_def power_on_require_def require_cpld_def require_max17135_def
      require_dac_def call_def fresh_def answer_at_def is_init_def)

text \<open>
  C3. Power-off runs five device operations in this order: VCOM switch open, VCOM switch
  driver off, DAC channel A off with the 100K pull-down, VCOM supply off, HV rail off. It
  returns 0 exactly when the CPLD handle is there and all five answer a non-negative
  value, and then the calls it made are exactly the five; the calls made are always an
  initial part of the five. Apart from opening the CPLD and the DAC, nothing else is
  called: no BPCOM clamp operation and no wait for power-OK.
\<close>

theorem power_off_seq0_five_operations:
  "let s2 = power_off_require e s;
       ops = [Cpld_set_switch CPLD_COM_SW_CLOSE 0,
              Cpld_set_switch CPLD_COM_SW_EN 0,
              Dac5820_set_power DAC5820_CH_A DAC5820_POW_OFF_100K,
              Cpld_set_switch CPLD_COM_PSU 0,
              Cpld_set_switch CPLD_HVEN 0];
       r = fst (power_off_seq0 e s);
       s' = snd (power_off_seq0 e s)
   in (r = 0 \<longleftrightarrow> cpld s2 \<and> list_all (\<lambda>x. 0 \<le> x) (step_results e (hw s2) ops))
    \<and> (r = 0 \<longrightarrow> trace s' = trace s2 @ ops)
    \<and> (\<exists>n\<le>5. trace s' = trace s2 @ take n ops)
    \<and> (\<exists>pre. trace s2 = trace s @ pre \<and> set pre \<subseteq> {Cpld_init, Dac5820_init})
    \<and> (\<forall>c\<in>set (drop (length (trace s)) (trace s')).
          c \<noteq> Max17135_wait_for_pok \<and> c \<noteq> Max17135_init
          \<and> (\<forall>v. c \<noteq> Cpld_set_switch CPLD_BPCOM_CLAMP v))"
proof -
  let ?steps = "power_off_steps"
  let ?s2 = "power_off_require e s"
  let ?ops = "[Cpld_set_switch CPLD_COM_SW_CLOSE 0, Cpld_set_switch CPLD_COM_SW_EN 0,
       Dac5820_set_power DAC5820_CH_A DAC5820_POW_OFF_100K,
       Cpld_set_switch CPLD_COM_PSU 0, Cpld_set_switch CPLD_HVEN 0]"
  have ops: "map fst ?steps = ?ops"
    by (simp add: power_off_steps_def)
  have len: "length ?steps = 5" by (simp add: power_off_steps_def)
  obtain pre where pre: "trace ?s2 = trace s @ pre" "set pre \<subseteq> {Cpld_init, Dac5820_init}"
  proof
    show "trace ?s2 = trace s @ ((if cpld s then [] else [Cpld_init]) @ (if dac (require_cpld e s) then [] else [Dac5820_init]))"
      by (simp add: power_off_require_def require_cpld_def require_dac_def call_def
          split: prod.splits)
    show "set ((if cpld s then [] else [Cpld_init]) @ (if dac (require_cpld e s) then [] else [Dac5820_init])) \<subseteq> {Cpld_init, Dac5820_init}"
      by simp
  qed
  have main: "(fst (power_off_seq0 e s) = 0 \<longleftrightarrow>
        cpld ?s2 \<and> list_all (\<lambda>x. 0 \<le> x) (step_results e (hw ?s2) ?ops))
      \<and> (fst (power_off_seq0 e s) = 0 \<longrightarrow> trace (snd (power_off_seq0 e s)) = trace ?s2 @ ?ops)
      \<and> (\<exists>n\<le>5. trace (snd (power_off_seq0 e s)) = trace ?s2 @ take n ?ops)"
  proof (cases "cpld ?s2")
    case True
    then have run: "power_off_seq0 e s = run_steps e ?steps ?s2"
      by (simp add: power_off_seq0_steps Let_def)
    show ?thesis
      unfolding run ops [symmetric]
      using True steps_success_iff [of e ?steps ?s2] steps_success_trace [of e ?steps ?s2]
        steps_trace_prefix [of ?steps e ?s2]
      by (simp add: len)
  next
    case False
    then have run: "power_off_seq0 e s = (- 1, ?s2)"
      by (auto simp add: power_off_seq0_steps Let_def)
    show ?thesis
      unfolding run using False by (auto intro: exI [of _ 0])
  qed
  then obtain n where n: "trace (snd (power_off_seq0 e s)) = trace ?s2 @ take n ?ops"
    by blast
  have new: "drop (length (trace s)) (trace (snd (power_off_seq0 e s))) = pre @ take n ?ops"
    using n pre(1) by simp
  have "\<forall>c\<in>set (pre @ take n ?ops).
          c \<noteq> Max17135_wait_for_pok \<and> c \<noteq> Max17135_init
          \<and> (\<forall>v. c \<noteq> Cpld_set_switch CPLD_BPCOM_CLAMP v)"
  proof
    fix c assume "c \<in> set (pre @ take n ?ops)"
    then have "c \<in> {Cpld_init, Dac5820_init} \<or> c \<in> set ?ops"
      using pre(2) set_take_subset [of n ?ops] by auto
    then show "c \<noteq> Max17135_wait_for_pok \<and> c \<noteq> Max17135_init
          \<and> (\<forall>v. c \<noteq> Cpld_set_switch CPLD_BPCOM_CLAMP v)"
      by auto
  qed
  with new main pre show ?thesis
    unfolding Let_def by metis
qed

text \<open>
  A world where every call succeeds, started with no handle open, and one where the
  seventh call fails.
\<close>

theorem power_off_seq0_five_operations_witness:
  "fst (power_off_seq0 (answer_at 100 0) (fresh 0)) = 0
   \<and> trace (snd (power_off_seq0 (answer_at 100 0) (fresh 0))) =
      [Cpld_init, Dac5820_init,
       Cpld_set_switch CPLD_COM_SW_CLOSE 0, Cpld_set_switch CPLD_COM_SW_EN 0,
       Dac5820_set_power DAC5820_CH_A DAC5820_POW_OFF_100K,
       Cpld_set_switch CPLD_COM_PSU 0, Cpld_set_switch CPLD_HVEN 0]
   \<and> fst (power_off_seq0 (answer_at 6 (- 1)) (fresh 0)) \<noteq> 0"
  using power_off_seq0_five_operations [of "answer_at 100 0" "fresh 0"]
    power_off_seq0_five_operations [of "answer_at 6 (- 1)" "fresh 0"]
  by (simp add: Let_def power_off_require_def require_cpld_def
      require_dac_def call_def fresh_def answer_at_def is_init_def)

lemma seq_search_first:
  "seq_search n qs = Some q \<Longrightarrow>
   \<exists>i<length qs. qs ! i = q \<and> (name q = Some n \<or> name q = None)
      \<and> (\<forall>j<i. name (qs ! j) \<noteq> None \<and> name (qs ! j) \<noteq> Some n)"
proof (induction qs)
  case Nil
  then show ?case by simp
next
  case (Cons a qs)
  show ?case
  proof (cases "name a = None \<or> name a = Some n")
    case True
    then have "q = a" using Cons.prems by (auto split: option.splits)
    with True show ?thesis by (intro exI [of _ 0]) auto
  next
    case False
    then have "seq_search n qs = Some q" using Cons.prems by (auto split: option.splits)
    from Cons.IH [OF this] obtain i where i: "i < length qs" "qs ! i = q"
      "name q = Some n \<or> name q = None"
      "\<forall>j<i. name (qs ! j) \<noteq> None \<and> name (qs ! j) \<noteq> Some n" by blast
    have "\<forall>j<Suc i. name ((a # qs) ! j) \<noteq> None \<and> name ((a # qs) ! j) \<noteq> Some n"
      using i(4) False by (auto simp: nth_Cons split: nat.splits)
    with i(1-3) show ?thesis by (intro exI [of _ "Suc i"]) auto
  qed
qed

lemma get_power_seq_named:
  "get_power_seq (n # rest) s =
     (if n = ''seq0'' then (Some (seqs ! 0), s)
      else (None, LOG (''Sequence not found: '' @ n) s))"
  by (simp add: get_power_seq_def seqs_def Let_def)

lemma get_power_seq_default: "get_power_seq [] s = (Some (seqs ! 0), s)"
  by (simp add: get_power_seq_def seqs_def)

lemma seq0_timing:
  "timing (seqs ! 0) = [8, 2, 11, 3, 0, 0, 0, 0]"
  by (simp add: seqs_def char_array_def MAX17135_NB_TIMINGS_def)

text \<open>
  C9. Without a name, \<open>get_power_seq\<close> gives the first entry of the table, which is
  \<open>seq0\<close>. With a name it gives nothing exactly when no entry of the table has that
  name, and otherwise the entry at which the search stops; in any table the search stops
  at the first entry that has the name or closes the table, all entries before it having
  another name. Every sequence it gives has eight timings, each from 0 to 255.
\<close>

theorem get_power_seq_resolves:
  fixes s :: "'h state"
  shows "fst (get_power_seq [] s) = Some (seqs ! 0)
   \<and> name (seqs ! 0 :: 'h power_seq) = Some ''seq0''
   \<and> (fst (get_power_seq (n # rest) s) = None \<longleftrightarrow>
        (\<forall>q\<in>set (seqs :: 'h power_seq list). name q \<noteq> Some n))
   \<and> (\<forall>q. fst (get_power_seq (n # rest) s) = Some q \<longrightarrow>
        q \<in> set seqs \<and> name q = Some n \<and> seq_search n seqs = Some q)
   \<and> (\<forall>qs q. seq_search n qs = Some (q :: 'h power_seq) \<longrightarrow>
        (\<exists>i<length qs. qs ! i = q \<and> (name q = Some n \<or> name q = None)
           \<and> (\<forall>j<i. name (qs ! j) \<noteq> None \<and> name (qs ! j) \<noteq> Some n)))
   \<and> (\<forall>q. fst (get_power_seq argv s) = Some q \<longrightarrow>
        length (timing q) = 8 \<and> (\<forall>t\<in>set (timing q). 0 \<le> t \<and> t \<le> 255))"
proof -
  have t: "\<forall>q. fst (get_power_seq argv s) = Some q \<longrightarrow>
        length (timing q) = 8 \<and> (\<forall>t\<in>set (timing q). 0 \<le> t \<and> t \<le> 255)"
  proof (cases argv)
    case Nil
    then show ?thesis by (auto simp: get_power_seq_default seq0_timing)
  next
    case (Cons a r)
    then show ?thesis by (auto simp: get_power_seq_named seq0_timing)
  qed
  have a: "fst (get_power_seq (n # rest) s) = None \<longleftrightarrow>
        (\<forall>q\<in>set (seqs :: 'h power_seq list). name q \<noteq> Some n)"
    by (auto simp: get_power_seq_named) (auto simp: seqs_def)
  have b: "\<forall>q. fst (get_power_seq (n # rest) s) = Some q \<longrightarrow>
        q \<in> set seqs \<and> name q = Some n \<and> seq_search n seqs = Some q"
    by (auto simp: get_power_seq_named) (auto simp: seqs_def)
  have c: "\<forall>qs q. seq_search n qs = Some (q :: 'h power_seq) \<longrightarrow>
        (\<exists>i<length qs. qs ! i = q \<and> (name q = Some n \<or> name q = None)
           \<and> (\<forall>j<i. name (qs ! j) \<noteq> None \<and> name (qs ! j) \<noteq> Some n))"
    using seq_search_first [of n] by blast
  have d: "fst (get_power_seq [] s) = Some (seqs ! 0)"
    by (simp add: get_power_seq_default)
  have e: "name (seqs ! 0 :: 'h power_seq) = Some ''seq0''"
    by (simp add: seqs_def)
  from d e a b c t show ?thesis by (intro conjI)
qed

text \<open>
  Asking for \<open>seq0\<close>, for a name that is not in the table, and for no name.
\<close>

theorem get_power_seq_resolves_witness:
  "map_option timing (fst (get_power_seq [''seq0''] (opened (0::nat)))) =
     Some [8, 2, 11, 3, 0, 0, 0, 0]
   \<and> length (timing (the (fst (get_power_seq [''seq0''] (opened (0::nat)))))) = 8
   \<and> Max (set (timing (the (fst (get_power_seq [''seq0''] (opened (0::nat))))))) \<le> 255
   \<and> 0 \<le> Min (set (timing (the (fst (get_power_seq [''seq0''] (opened (0::nat)))))))
   \<and> fst (get_power_seq [''seq1''] (opened (0::nat))) = None
   \<and> map_option name (fst (get_power_seq [] (opened (0::nat)))) = Some (Some ''seq0'')"
  using get_power_seq_resolves [of "opened (0::nat)" "''seq0''" "[]" "[''seq0'']"]
    get_power_seq_resolves [of "opened (0::nat)" "''seq1''" "[]" "[]"]
  by (simp add: get_power_seq_named seq0_timing)

lemma seq0_on: "on (seqs ! 0) = Some power_on_seq0"
  by (simp add: seqs_def)

text \<open>
  C10. \<open>power on seq0 V\<close> with a value \<open>V\<close> that \<open>atoi\<close> reads below 0 or above 255:
  the command logs that the value is invalid and then does what \<open>power on seq0\<close> does
  without a value, which is to run the power-on procedure with VCOM 128. The argument
  never makes the result an error: the result is the one of the procedure.
\<close>

theorem run_power_invalid_vcom:
  assumes "atoi e v < 0 \<or> 255 < atoi e v"
  shows "run_power e (''on'' # ''seq0'' # v # rest) s =
           (let s1 = LOG ''invalid vcom value (valid range: 0-255)'' s;
                (stat, s2) = power_on_seq0 e 128 s1
            in (stat, if stat = 0 then LOG ''Power on'' s2 else s2))
         \<and> run_power e (''on'' # ''seq0'' # v # rest) s =
           run_power e [''on'', ''seq0''] (LOG ''invalid vcom value (valid range: 0-255)'' s)"
  using assms
  by (auto simp add: run_power_def get_on_off_opt_def get_power_seq_named seq0_on Let_def
      split: prod.splits)


text \<open>
  \<open>power on seq0 300\<close> in a world where every call succeeds: the DAC is given 128 and
  the command returns 0.
\<close>

theorem run_power_invalid_vcom_witness:
  "atoi (answer_at 100 0) ''300'' = 300
   \<and> fst (run_power (answer_at 100 0) [''on'', ''seq0'', ''300''] (opened 0)) = 0
   \<and> trace (snd (run_power (answer_at 100 0) [''on'', ''seq0'', ''300''] (opened 0))) =
      [Cpld_set_switch CPLD_BPCOM_CLAMP 1, Cpld_set_switch CPLD_HVEN 1, Max17135_wait_for_pok,
       Cpld_set_switch CPLD_COM_SW_CLOSE 0, Cpld_set_switch CPLD_COM_SW_EN 1,
       Cpld_set_switch CPLD_COM_PSU 1, Dac5820_output DAC5820_CH_A 128,
       Dac5820_set_power DAC5820_CH_A DAC5820_POW_ON, Cpld_set_switch CPLD_COM_SW_CLOSE 1]
   \<and> logs (snd (run_power (answer_at 100 0) [''on'', ''seq0'', ''300''] (opened 0))) =
      [Msg ''invalid vcom value (valid range: 0-255)'',
       Msg ''BPCOM clamp ok'', Msg ''HV enable ok'', Msg ''wait for POK ok'',
       Msg ''COM open ok'', Msg ''COM enable ok'', Msg ''COM PSU on ok'',
       Msg ''VCOM DAC value ok'', Msg ''DAC power on ok'', Msg ''COM close ok'',
       Msg ''Power on'']"
proof -
  have a: "atoi (answer_at 100 0) ''300'' = 300"
    by (simp add: answer_at_def is_init_def atoi_dec_def)
  have p: "power_on_seq0 (answer_at 100 0) 128 (LOG ''invalid vcom value (valid range: 0-255)'' (opened 0))
     = (0, (opened 0)\<lparr>hw := 9,
         trace := [Cpld_set_switch CPLD_BPCOM_CLAMP 1, Cpld_set_switch CPLD_HVEN 1, Max17135_wait_for_pok,
       Cpld_set_switch CPLD_COM_SW_CLOSE 0, Cpld_set_switch CPLD_COM_SW_EN 1,
       Cpld_set_switch CPLD_COM_PSU 1, Dac5820_output DAC5820_CH_A 128,
       Dac5820_set_power DAC5820_CH_A DAC5820_POW_ON, Cpld_set_switch CPLD_COM_SW_CLOSE 1],
         logs := [Msg ''invalid vcom value (valid range: 0-255)'',
       Msg ''BPCOM clamp ok'', Msg ''HV enable ok'', Msg ''wait for POK ok'',
       Msg ''COM open ok'', Msg ''COM enable ok'', Msg ''COM PSU on ok'',
       Msg ''VCOM DAC value ok'', Msg ''DAC power on ok'', Msg ''COM close ok'']\<rparr>)"
    by (simp add: power_on_seq0_def STEP_def call_def LOG_def require_cpld_def require_max17135_def
        require_dac_def opened_def answer_at_def is_init_def DAC_CH_def DAC_ON_def)
  show ?thesis
    using run_power_invalid_vcom [of "answer_at 100 0" "''300''" "[]" "opened 0"] a
    by (simp add: p) (simp add: LOG_def opened_def)
qed

section \<open>EEPROM transfers: proofs\<close>

declare rw_loop.simps [simp del]
declare pad_eeprom.simps [simp del]

lemma call_eq:
  "call e c s =
     (fst (respond e (hw s) c), s\<lparr>hw := snd (respond e (hw s) c), trace := trace s @ [c]\<rparr>)"
  by (simp add: call_def split: prod.splits)

lemma deliver_simps [simp]:
  "hw (deliver e s) = hw s" "trace (deliver e s) = trace s"
  "g_abort (deliver e s) = (g_abort s \<or> sigint e (hw s))"
  by (simp_all add: deliver_def sigint_abort_def LOG_def)

lemma log_progress_Inr:
  "total_sz \<noteq> 0 \<Longrightarrow>
   \<exists>p b. log_eeprom_progress e total_sz rem msg s = Inr (s\<lparr>logs := logs s @ [Progress msg p b]\<rparr>)"
  by (cases "rem \<le> total_sz") (auto simp add: log_eeprom_progress_def Let_def LOG_PRINT_def)

lemma log_progress_Inl:
  "log_eeprom_progress e total_sz rem msg s = Inl f \<Longrightarrow> total_sz = 0"
  by (simp add: log_eeprom_progress_def Let_def split: if_splits)

lemma log_progress_state:
  "log_eeprom_progress e total_sz rem msg s = Inr s' \<Longrightarrow>
   hw s' = hw s \<and> trace s' = trace s \<and> g_abort s' = g_abort s"
  by (auto simp add: log_eeprom_progress_def Let_def LOG_PRINT_def split: if_splits)

lemma rw_loop_stop:
  "left = 0 \<or> ret \<noteq> 0 \<or> g_abort (deliver e s) \<Longrightarrow>
   rw_loop e fd write_file opt msg left ret buffer s = Inr (ret, deliver e s)"
  by (subst rw_loop.simps) (auto simp: Let_def)

lemma rw_loop_step:
  "left \<noteq> 0 \<Longrightarrow> ret = 0 \<Longrightarrow> \<not> g_abort (deliver e s) \<Longrightarrow>
   rw_body e fd write_file opt msg left ret buffer (deliver e s) = Inr (left', ret', buffer', s') \<Longrightarrow>
   rw_loop e fd write_file opt msg left ret buffer s =
     rw_loop e fd write_file opt msg left' ret' buffer' s'"
  by (subst rw_loop.simps) (simp add: Let_def)

lemma rw_loop_fault:
  "left \<noteq> 0 \<Longrightarrow> ret = 0 \<Longrightarrow> \<not> g_abort (deliver e s) \<Longrightarrow>
   rw_body e fd write_file opt msg left ret buffer (deliver e s) = Inl f \<Longrightarrow>
   rw_loop e fd write_file opt msg left ret buffer s = Inl f"
  by (subst rw_loop.simps) (simp add: Let_def)

lemma rw_body_e2f_eq:
  assumes "data_size opt \<noteq> 0"
    and "respond e (hw s) (Eeprom_read rwsz) = ((r1, d), h1)"
    and "respond e h1 (Sys_write fd (take rwsz (fill buffer d rwsz))) = ((r2, d2), h2)"
  shows "\<exists>s'. rw_body_e2f e fd opt msg rwsz left ret buffer s =
           Inr (left - rwsz, if r1 < 0 \<or> r2 < 0 then - 1 else ret, fill buffer d rwsz, s')
         \<and> g_abort s' = g_abort s
         \<and> hw s' = (if r1 < 0 then h1 else h2)
         \<and> trace s' = trace s @
             (if r1 < 0 then [Eeprom_read rwsz]
              else [Eeprom_read rwsz, Sys_write fd (take rwsz (fill buffer d rwsz))])"
proof -
  obtain p b where l: "log_eeprom_progress e (data_size opt) (left - rwsz) msg s
      = Inr (s\<lparr>logs := logs s @ [Progress msg p b]\<rparr>)"
    using log_progress_Inr [OF assms(1)] by blast
  show ?thesis
    unfolding rw_body_e2f_def l
    using assms(2,3) by (simp add: call_eq Let_def)
qed

lemma length_fill: "n \<le> length buffer \<Longrightarrow> length (fill buffer d n) = length buffer"
  by (simp add: fill_def Let_def)

lemma sink_bytes_append [simp]: "sink_bytes (a @ b) = sink_bytes a @ sink_bytes b"
  by (simp add: sink_bytes_def)

lemma sink_bytes_simps [simp]:
  "sink_bytes [] = []"
  "sink_bytes (Sys_write fd bs # cs) = bs @ sink_bytes cs"
  "sink_bytes (Eeprom_read n # cs) = sink_bytes cs"
  by (simp_all add: sink_bytes_def)

lemma rw_body_True:
  "rw_body e fd True opt msg left ret buffer s =
     rw_body_e2f e fd opt msg (if left > buffer_size then buffer_size else left) left ret buffer s"
  by (simp add: rw_body_def)

lemma rw_body_False:
  "rw_body e fd False opt msg left ret buffer s =
     rw_body_f2e e fd opt msg (if left > buffer_size then buffer_size else left) left ret buffer s"
  by (simp add: rw_body_def)

text \<open>
  C7, as the code has it. One round of the loop from the EEPROM to the file, entered with
  \<open>left\<close> bytes to go: \<open>eeprom_read\<close> is asked for \<open>rwsz\<close> bytes and, unless it answers a
  negative value, \<open>write\<close> is given \<open>rwsz\<close> bytes of the buffer. The round fails, and the
  loop ends with -1, exactly when one of the two answers is negative. In every other
  case, whatever the two counts are, \<open>left\<close> goes down by the whole \<open>rwsz\<close> and the loop
  goes on: a count smaller than asked for is taken as a chunk fully moved.
\<close>

theorem rw_loop_e2f_round:
  assumes "left \<noteq> 0" "left \<le> data_size opt" "\<not> g_abort (deliver e s)"
  shows "let rwsz = (if left > 4096 then 4096 else left);
             a1 = respond e (hw s) (Eeprom_read rwsz);
             buffer1 = fill buffer (snd (fst a1)) rwsz;
             a2 = respond e (snd a1) (Sys_write fd (take rwsz buffer1));
             failed = (fst (fst a1) < 0 \<or> fst (fst a2) < 0)
         in \<exists>s'. trace s' = trace s @
                    (if fst (fst a1) < 0 then [Eeprom_read rwsz]
                     else [Eeprom_read rwsz, Sys_write fd (take rwsz buffer1)])
              \<and> rw_loop e fd True opt msg left 0 buffer s =
                   (if failed then Inr (- 1, deliver e s')
                    else rw_loop e fd True opt msg (left - rwsz) 0 buffer1 s')"
proof -
  define rwsz where "rwsz = (if left > buffer_size then buffer_size else left)"
  have ds: "data_size opt \<noteq> 0" using assms by auto
  obtain r1 d h1 where a1: "respond e (hw s) (Eeprom_read rwsz) = ((r1, d), h1)"
    by (metis prod.exhaust)
  obtain r2 d2 h2 where
    a2: "respond e h1 (Sys_write fd (take rwsz (fill buffer d rwsz))) = ((r2, d2), h2)"
    by (metis prod.exhaust)
  have a1': "respond e (hw (deliver e s)) (Eeprom_read rwsz) = ((r1, d), h1)"
    using a1 by simp
  from rw_body_e2f_eq [OF ds a1' a2, where msg = msg and left = left and ret = 0]
  obtain s' where b: "rw_body_e2f e fd opt msg rwsz left 0 buffer (deliver e s) =
           Inr (left - rwsz, if r1 < 0 \<or> r2 < 0 then - 1 else 0, fill buffer d rwsz, s')"
    and t: "trace s' = trace (deliver e s) @
             (if r1 < 0 then [Eeprom_read rwsz]
              else [Eeprom_read rwsz, Sys_write fd (take rwsz (fill buffer d rwsz))])"
    by (elim exE conjE)
  have step: "rw_loop e fd True opt msg left 0 buffer s =
     rw_loop e fd True opt msg (left - rwsz) (if r1 < 0 \<or> r2 < 0 then - 1 else 0)
       (fill buffer d rwsz) s'"
    using assms b by (intro rw_loop_step) (simp_all add: rw_body_True rwsz_def)
  have r: "rwsz = (if left > 4096 then 4096 else left)"
    by (simp add: rwsz_def buffer_size_def)
  show ?thesis
    unfolding Let_def r [symmetric] a1 fst_conv snd_conv a2
    using t by (intro exI [of _ s']) (simp add: step rw_loop_stop)
qed

lemma rw_chunks_loop:
  "rw_chunks e fd wfile opt msg k left ret buffer s = Some (left', ret', buffer', s') \<Longrightarrow>
   rw_loop e fd wfile opt msg left ret buffer s = rw_loop e fd wfile opt msg left' ret' buffer' s'"
proof (induction k arbitrary: left ret buffer s)
  case 0
  then show ?case by simp
next
  case (Suc k)
  from Suc.prems have g: "left \<noteq> 0" "ret = 0" "\<not> g_abort (deliver e s)"
    by (auto simp: Let_def split: if_splits)
  from Suc.prems g obtain l1 r1 b1 s1 where
    b: "rw_body e fd wfile opt msg left ret buffer (deliver e s) = Inr (l1, r1, b1, s1)"
    and c: "rw_chunks e fd wfile opt msg k l1 r1 b1 s1 = Some (left', ret', buffer', s')"
    by (auto simp: Let_def split: sum.splits)
  from rw_loop_step [OF g b] Suc.IH [OF c] show ?case by simp
qed

lemma rw_chunks_ret:
  "rw_chunks e fd wfile opt msg k left ret buffer s = Some (left', 0, buffer', s') \<Longrightarrow>
   ret = 0"
  by (cases k) (auto simp: Let_def split: if_splits)

lemma rw_chunks_e2f_whole:
  "rw_chunks e fd True opt msg k left ret buffer s = Some (left', ret', buffer', s') \<Longrightarrow>
   length buffer = 4096 \<Longrightarrow> k * 4096 < left \<Longrightarrow> left \<le> data_size opt \<Longrightarrow>
   left' = left - k * 4096 \<and> length buffer' = 4096 \<and>
   (\<exists>cs. trace s' = trace s @ cs \<and> (ret' = 0 \<longrightarrow> length (sink_bytes cs) = k * 4096))"
proof (induction k arbitrary: left ret buffer s)
  case 0
  then show ?case by simp
next
  case (Suc k)
  from Suc.prems(1) have g: "left \<noteq> 0" "ret = 0" "\<not> g_abort (deliver e s)"
    by (auto simp: Let_def split: if_splits)
  from Suc.prems(1) g obtain l1 r1 b1 s1 where
    b: "rw_body e fd True opt msg left ret buffer (deliver e s) = Inr (l1, r1, b1, s1)"
    and c: "rw_chunks e fd True opt msg k l1 r1 b1 s1 = Some (left', ret', buffer', s')"
    by (auto simp: Let_def split: sum.splits)
  have big: "4096 < left" using Suc.prems(3) by simp
  have ds: "data_size opt \<noteq> 0" using Suc.prems(4) g by auto
  obtain a1 d h1 where a1: "respond e (hw s) (Eeprom_read 4096) = ((a1, d), h1)"
    by (metis prod.exhaust)
  define b1' where "b1' = fill buffer d 4096"
  obtain a2 d2 h2 where
    a2: "respond e h1 (Sys_write fd (take 4096 (fill buffer d 4096))) = ((a2, d2), h2)"
    by (metis prod.exhaust)
  have a1': "respond e (hw (deliver e s)) (Eeprom_read 4096) = ((a1, d), h1)"
    using a1 by simp
  from rw_body_e2f_eq [OF ds a1' a2, where msg = msg and left = left and ret = ret]
  obtain sx where bx: "rw_body_e2f e fd opt msg 4096 left ret buffer (deliver e s) =
      Inr (left - 4096, if a1 < 0 \<or> a2 < 0 then - 1 else ret, fill buffer d 4096, sx)"
    and tx: "trace sx = trace (deliver e s) @
       (if a1 < 0 then [Eeprom_read 4096]
        else [Eeprom_read 4096, Sys_write fd (take 4096 (fill buffer d 4096))])"
    by (elim exE conjE)
  from b big bx have l1: "l1 = left - 4096" and b1: "b1 = b1'"
    and r1: "r1 = (if a1 < 0 \<or> a2 < 0 then - 1 else ret)"
    and sx: "s1 = sx"
    by (simp_all add: rw_body_True buffer_size_def b1'_def)
  have lb1: "length b1 = 4096" using Suc.prems(2) by (simp add: b1 b1'_def length_fill)
  have k: "k * 4096 < l1" "l1 \<le> data_size opt" using Suc.prems(3,4) by (simp_all add: l1)
  from Suc.IH [OF c lb1 k] obtain cs where
    ih: "left' = l1 - k * 4096" "length buffer' = 4096" "trace s' = trace s1 @ cs"
      "ret' = 0 \<longrightarrow> length (sink_bytes cs) = k * 4096"
    by blast
  let ?new = "(if a1 < 0 then [Eeprom_read 4096]
        else [Eeprom_read 4096, Sys_write fd (take 4096 b1')]) @ cs"
  have t: "trace s' = trace s @ ?new"
    using ih(3) tx sx by (simp add: b1'_def)
  have "ret' = 0 \<longrightarrow> length (sink_bytes ?new) = Suc k * 4096"
  proof
    assume z: "ret' = 0"
    then have "r1 = 0" using rw_chunks_ret c by blast
    then have ok: "\<not> a1 < 0" using r1 by (auto split: if_splits)
    have "length (take 4096 b1') = 4096" using lb1 by (simp add: b1)
    with ok z ih(4) show "length (sink_bytes ?new) = Suc k * 4096" by simp
  qed
  with t ih(1,2) l1 show ?case by (intro conjI exI [of _ ?new]) auto
qed


lemma rw_enter_loop:
  assumes "rw_enter e opt s = Some (buffer, s0)"
  shows "rw_file_eeprom e fd wfile opt s =
           (case rw_loop e fd wfile opt (if wfile then ''Reading'' else ''Writing'')
                   (data_size opt) 0 buffer s0 of
              Inl f \<Rightarrow> Inl f
            | Inr (ret, s3) \<Rightarrow> Inr (ret, LOG_PRINT Newline s3))"
    and "length buffer = 4096"
  using assms
  by (auto simp: rw_enter_def rw_file_eeprom_def Let_def buffer_size_def
      split: prod.splits if_splits)

text \<open>
  C4, as the code has it. In a transfer from the EEPROM to the file, let the loop have
  run \<open>k\<close> rounds without a failure, \<open>k\<close> times 4096 being less than the size of the job,
  and let the abort flag be set when the loop condition is read next. Then no further call
  is made, the bytes handed to \<open>write\<close> are \<open>k\<close> times 4096, and \<open>rw_file_eeprom\<close>
  returns 0, the value it returns for a transfer that ran to its end.
\<close>

theorem transfer_abort_after_chunks:
  assumes "rw_enter e opt s = Some (buffer, s0)"
    and "rw_chunks e fd True opt ''Reading'' k (data_size opt) 0 buffer s0
           = Some (left, ret, buffer', sk)"
    and "ret = 0"
    and "k * 4096 < data_size opt"
    and "g_abort (deliver e sk)"
  shows "rw_file_eeprom e fd True opt s = Inr (0, LOG_PRINT Newline (deliver e sk))
       \<and> trace (LOG_PRINT Newline (deliver e sk)) = trace sk
       \<and> length (sink_bytes (drop (length (trace s0)) (trace sk))) = k * 4096
       \<and> left = data_size opt - k * 4096"
proof -
  note en = rw_enter_loop [OF assms(1)]
  have "rw_loop e fd True opt ''Reading'' (data_size opt) 0 buffer s0
          = rw_loop e fd True opt ''Reading'' left ret buffer' sk"
    by (rule rw_chunks_loop [OF assms(2)])
  also have "\<dots> = Inr (ret, deliver e sk)"
    using assms(5) by (intro rw_loop_stop) simp
  finally have run: "rw_file_eeprom e fd True opt s = Inr (0, LOG_PRINT Newline (deliver e sk))"
    using assms(3) by (simp add: en(1) [of fd True])
  from rw_chunks_e2f_whole [OF assms(2) en(2) assms(4)] obtain cs where
    w: "left = data_size opt - k * 4096" "trace sk = trace s0 @ cs"
       "ret = 0 \<longrightarrow> length (sink_bytes cs) = k * 4096"
    by auto
  from w assms(3) have "length (sink_bytes (drop (length (trace s0)) (trace sk))) = k * 4096"
    by simp
  with run w(1) show ?thesis by (simp add: LOG_PRINT_def)
qed


text \<open>
  The definitions to unfold when a transfer is run in one of the worlds above.
\<close>

lemmas run_defs =
  rw_file_eeprom_def rw_body_def rw_body_e2f_def rw_body_f2e_def log_eeprom_progress_def
  call_def LOG_def LOG_PRINT_def deliver_def sigint_abort_def fill_def buffer_size_def
  N_ZEROS_def scripted_def plain_def is_init_def opened_def job_def eeprom_opt_init_def
  Let_def

lemma abort_run:
  "rw_file_eeprom (scripted plain 4) 1 True (job 10000) (opened 0) =
     Inr (0, (opened 4)\<lparr>
        trace := [Malloc 4096, Eeprom_seek 0, Eeprom_read 4096, Sys_write 1 (replicate 4096 0)],
        logs := [Progress ''Reading'' 40 4096, Msg ''abort!'', Newline],
        g_abort := True\<rparr>)"
  by (simp add: run_defs rw_loop.simps)

lemma full_run:
  "rw_file_eeprom (scripted plain 1000) 1 True (job 10000) (opened 0) =
     Inr (0, (opened 8)\<lparr>
        trace := [Malloc 4096, Eeprom_seek 0, Eeprom_read 4096, Sys_write 1 (replicate 4096 0),
                  Eeprom_read 4096, Sys_write 1 (replicate 4096 0),
                  Eeprom_read 1808, Sys_write 1 (replicate 1808 0)],
        logs := [Progress ''Reading'' 40 4096, Progress ''Reading'' 81 8192,
                 Progress ''Reading'' 100 10000, Newline]\<rparr>)"
  by (simp add: run_defs rw_loop.simps)


text \<open>
  A job of 10000 bytes with SIGINT after the first chunk: the transfer stops with 4096
  bytes written and returns 0, which is also what the same job returns when no signal
  comes.
\<close>

theorem transfer_abort_counterexample:
  "rw_file_eeprom (scripted plain 4) 1 True (job 10000) (opened 0) =
     Inr (0, (opened 4)\<lparr>
        trace := [Malloc 4096, Eeprom_seek 0, Eeprom_read 4096, Sys_write 1 (replicate 4096 0)],
        logs := [Progress ''Reading'' 40 4096, Msg ''abort!'', Newline],
        g_abort := True\<rparr>)
   \<and> fst (projr (rw_file_eeprom (scripted plain 4) 1 True (job 10000) (opened 0)))
     = fst (projr (rw_file_eeprom (scripted plain 1000) 1 True (job 10000) (opened 0)))"
  by (simp add: abort_run full_run)

text \<open>
  The same run, from the theorem: one round, then the flag is set.
\<close>

theorem transfer_abort_after_chunks_witness:
  "rw_file_eeprom (scripted plain 4) 1 True (job 10000) (opened 0) =
     Inr (0, LOG_PRINT Newline (deliver (scripted plain 4)
        ((opened 4)\<lparr>
           trace := [Malloc 4096, Eeprom_seek 0, Eeprom_read 4096,
                     Sys_write 1 (replicate 4096 0)],
           logs := [Progress ''Reading'' 40 4096]\<rparr>)))
   \<and> length (sink_bytes (drop 2
        [Malloc 4096, Eeprom_seek 0, Eeprom_read 4096, Sys_write 1 (replicate 4096 0)]))
      = 1 * 4096"
proof -
  let ?e = "scripted plain 4"
  let ?s0 = "(opened 2)\<lparr>trace := [Malloc 4096, Eeprom_seek 0]\<rparr>"
  let ?sk = "(opened 4)\<lparr>
           trace := [Malloc 4096, Eeprom_seek 0, Eeprom_read 4096,
                     Sys_write 1 (replicate 4096 0)],
           logs := [Progress ''Reading'' 40 4096]\<rparr>"
  have en: "rw_enter ?e (job 10000) (opened 0) = Some (replicate 4096 0, ?s0)"
    by (simp add: rw_enter_def run_defs)
  have ch: "rw_chunks ?e 1 True (job 10000) ''Reading'' (Suc 0) (data_size (job 10000)) 0
              (replicate 4096 0) ?s0 = Some (5904, 0, replicate 4096 0, ?sk)"
    by (simp add: run_defs)
  have ab: "g_abort (deliver ?e ?sk)"
    by (simp add: run_defs)
  have k: "Suc 0 * 4096 < data_size (job 10000)"
    by (simp add: job_def)
  from transfer_abort_after_chunks [OF en ch refl k ab]
  show ?thesis by (simp add: opened_def)
qed

text \<open>
  A job of 10 bytes where the EEPROM gives 3 bytes and \<open>write\<close> takes 1: the transfer
  reports all 10 bytes done and returns 0.
\<close>

theorem rw_loop_e2f_round_counterexample:
  "rw_file_eeprom (scripted short_counts 1000) 1 True (job 10) (opened 0) =
     Inr (0, (opened 4)\<lparr>
        trace := [Malloc 4096, Eeprom_seek 0, Eeprom_read 10,
                  Sys_write 1 ([1, 2, 3] @ replicate 7 0)],
        logs := [Progress ''Reading'' 100 10, Newline]\<rparr>)"
  by (simp add: run_defs short_counts_def rw_loop.simps)

text \<open>
  The round of that run, from the theorem.
\<close>

theorem rw_loop_e2f_round_witness:
  "\<exists>s'. rw_loop (scripted short_counts 1000) 1 True (job 10) ''Reading'' 10 0
          (replicate 4096 0) (opened 2) = Inr (0, s')
      \<and> trace s' = [Eeprom_read 10, Sys_write 1 ([1, 2, 3] @ replicate 7 0)]"
proof -
  let ?e = "scripted short_counts 1000"
  have a: "(10::nat) \<noteq> 0" "10 \<le> data_size (job 10)" "\<not> g_abort (deliver ?e (opened 2))"
    by (simp_all add: run_defs)
  from rw_loop_e2f_round [OF a, where fd = 1 and msg = "''Reading''" and buffer = "replicate 4096 0"]
  have "\<exists>s'. trace s' = [Eeprom_read 10, Sys_write 1 ([1, 2, 3] @ replicate 7 0)]
      \<and> rw_loop ?e 1 True (job 10) ''Reading'' 10 0 (replicate 4096 0) (opened 2)
          = Inr (0, deliver ?e s')"
    by (simp add: rw_loop_stop short_counts_def plain_def fill_def scripted_def opened_def Let_def)
  then obtain s' where
    "trace (deliver ?e s') = [Eeprom_read 10, Sys_write 1 ([1, 2, 3] @ replicate 7 0)]"
    "rw_loop ?e 1 True (job 10) ''Reading'' 10 0 (replicate 4096 0) (opened 2)
       = Inr (0, deliver ?e s')"
    by auto
  then show ?thesis by blast
qed

lemma sint_small: "n \<le> 100 \<Longrightarrow> sint (word_of_nat n :: 32 word) = int n"
  by (simp add: signed_of_nat signed_take_bit_int_eq_self)

lemma log_progress_floor:
  assumes "total_sz \<noteq> 0" "rem \<le> total_sz" "(total_sz - rem) * 100 < 2 ^ size_bits e"
  shows "log_eeprom_progress e total_sz rem msg s =
           Inr (LOG_PRINT (Progress msg (int ((total_sz - rem) * 100 div total_sz))
                  (total_sz - rem)) s)"
proof -
  have "(total_sz - rem) * 100 div total_sz \<le> 100"
  proof -
    have "(total_sz - rem) * 100 \<le> total_sz * 100" by simp
    then have "(total_sz - rem) * 100 div total_sz \<le> total_sz * 100 div total_sz"
      by (rule div_le_mono)
    with assms(1) show ?thesis by simp
  qed
  then show ?thesis
    using assms by (simp add: log_eeprom_progress_def Let_def sint_small)
qed




lemma pad_eeprom_Inr:
  assumes "data_size opt \<noteq> 0"
  shows "\<exists>r s'. pad_eeprom e n opt s = Inr (r, s')"
proof (induction n arbitrary: s rule: less_induct)
  case (less n)
  show ?case
  proof (cases "n = 0")
    case True
    then show ?thesis by (simp add: pad_eeprom.simps)
  next
    case False
    let ?m = "min 64 n"
    obtain p b where l: "log_eeprom_progress e (data_size opt) (n - ?m) ''Padding'' s
        = Inr (s\<lparr>logs := logs s @ [Progress ''Padding'' p b]\<rparr>)"
      using log_progress_Inr [OF assms(1)] by blast
    obtain r d h1 where w: "respond e (hw s) (Eeprom_write (replicate ?m 0)) = ((r, d), h1)"
      by (metis prod.exhaust)
    let ?s2 = "s\<lparr>logs := logs s @ [Progress ''Padding'' p b], hw := h1,
                 trace := trace s @ [Eeprom_write (replicate ?m 0)]\<rparr>"
    have "n - ?m < n" using False by simp
    from less.IH [OF this, of ?s2] obtain r' s' where
      "pad_eeprom e (n - ?m) opt ?s2 = Inr (r', s')" by blast
    then show ?thesis
      using False
      by (subst pad_eeprom.simps) (simp add: l w call_eq Let_def N_ZEROS_def)
  qed
qed


lemma eeprom_bytes_append [simp]: "eeprom_bytes (a @ b) = eeprom_bytes a @ eeprom_bytes b"
  by (simp add: eeprom_bytes_def)

lemma eeprom_bytes_simps [simp]:
  "eeprom_bytes [] = []"
  "eeprom_bytes (Eeprom_write bs # cs) = bs @ eeprom_bytes cs"
  "eeprom_bytes (Sys_read fd n # cs) = eeprom_bytes cs"
  by (simp_all add: eeprom_bytes_def)






lemma reported_append [simp]: "reported (xs @ ys) = reported xs @ reported ys"
  by (induction xs rule: reported.induct) simp_all

lemma eeprom_count_simps [simp]:
  "eeprom_count (Eeprom_read n) = Some n"
  "eeprom_count (Eeprom_write bs) = Some (length bs)"
  "eeprom_count (Sys_read fd n) = None"
  "eeprom_count (Sys_write fd bs) = None"
  "eeprom_count (Malloc n) = None"
  "eeprom_count (Eeprom_seek n) = None"
  by (simp_all add: eeprom_count_def)

lemma moved_bytes_simps [simp]:
  "moved_bytes [] = 0"
  "moved_bytes (c # cs) = (case eeprom_count c of None \<Rightarrow> 0 | Some n \<Rightarrow> n) + moved_bytes cs"
  by (simp_all add: moved_bytes_def)

lemma expected_reports_append:
  "expected_reports t m (cs1 @ cs2) =
     expected_reports t m cs1 @ expected_reports t (m + moved_bytes cs1) cs2"
  by (induction cs1 arbitrary: m) (auto split: option.splits simp: add.assoc)

lemma reports_added_match:
  "reports_added t m s s' xs cs \<Longrightarrow> reports_match t m s s'"
  by (simp add: reports_added_def reports_match_def)

lemma reports_added_trans:
  "reports_added t m s s1 xs1 cs1 \<Longrightarrow> reports_added t (m + moved_bytes cs1) s1 s2 xs2 cs2 \<Longrightarrow>
   reports_added t m s s2 (xs1 @ xs2) (cs1 @ cs2)"
  by (simp add: reports_added_def expected_reports_append)

lemma reports_added_deliver:
  "\<exists>xs. reports_added t m s (deliver e s) xs [] \<and> reported xs = []"
  by (simp add: reports_added_def deliver_def sigint_abort_def LOG_def)

lemma log_progress_report:
  assumes "total_sz \<noteq> 0" "rem \<le> total_sz" "total_sz * 100 < 2 ^ size_bits e"
  shows "log_eeprom_progress e total_sz rem msg s =
           Inr (s\<lparr>logs := logs s @
                  [Progress msg (int ((total_sz - rem) * 100 div total_sz)) (total_sz - rem)]\<rparr>)"
proof -
  have "(total_sz - rem) * 100 \<le> total_sz * 100" by simp
  with assms(3) have "(total_sz - rem) * 100 < 2 ^ size_bits e" by linarith
  from log_progress_floor [OF assms(1,2) this]
  show ?thesis by (simp add: LOG_PRINT_def)
qed

lemma pad_eeprom_match:
  assumes ds: "data_size opt \<noteq> 0" and big: "data_size opt * 100 < 2 ^ size_bits e"
  shows "n \<le> data_size opt \<Longrightarrow> pad_eeprom e n opt s = Inr (r, s') \<Longrightarrow>
         \<exists>xs cs. reports_added (data_size opt) (data_size opt - n) s s' xs cs"
proof (induction n arbitrary: s rule: less_induct)
  case (less n)
  let ?t = "data_size opt"
  show ?case
  proof (cases "n = 0")
    case True
    with less.prems have "s' = s" by (simp add: pad_eeprom.simps)
    then have "reports_added ?t (?t - n) s s' [] []" by (simp add: reports_added_def)
    then show ?thesis by blast
  next
    case False
    let ?m = "min 64 n"
    let ?x = "Progress ''Padding'' (int ((?t - n + ?m) * 100 div ?t)) (?t - n + ?m)"
    let ?c = "Eeprom_write (replicate ?m 0)"
    have rem: "n - ?m \<le> ?t" using less.prems(1) by simp
    have cnt: "?t - (n - ?m) = ?t - n + ?m" using less.prems(1) by simp
    have l: "log_eeprom_progress e ?t (n - ?m) ''Padding'' s = Inr (s\<lparr>logs := logs s @ [?x]\<rparr>)"
      by (rule log_progress_report [OF ds rem big, unfolded cnt])
    obtain a d h1 where w: "respond e (hw s) ?c = ((a, d), h1)"
      by (metis prod.exhaust)
    let ?s2 = "s\<lparr>logs := logs s @ [?x], hw := h1, trace := trace s @ [?c]\<rparr>"
    have r2: "reports_added ?t (?t - n) s ?s2 [?x] [?c]"
      by (simp add: reports_added_def)
    show ?thesis
    proof (cases "a < 0")
      case True
      with less.prems(2) False l w have "s' = ?s2"
        by (subst (asm) pad_eeprom.simps) (simp add: call_eq Let_def N_ZEROS_def)
      with r2 show ?thesis by blast
    next
      case neg: False
      with less.prems(2) False l w
      have p: "pad_eeprom e (n - ?m) opt ?s2 = Inr (r, s')"
        by (subst (asm) pad_eeprom.simps) (simp add: call_eq Let_def N_ZEROS_def)
      have "n - ?m < n" using False by simp
      with less.IH [OF _ rem p] obtain xs cs where
        "reports_added ?t (?t - (n - ?m)) ?s2 s' xs cs"
        by blast
      moreover have "?t - n + moved_bytes [?c] = ?t - (n - ?m)"
        by (simp add: cnt)
      ultimately have "reports_added ?t (?t - n + moved_bytes [?c]) ?s2 s' xs cs"
        by (simp only:)
      from reports_added_trans [OF r2 this] show ?thesis by blast
    qed
  qed
qed

lemma rw_body_e2f_Inr:
  assumes "data_size opt \<noteq> 0"
  shows "\<exists>r' b' s'. rw_body_e2f e fd opt msg rwsz left ret buffer s = Inr (left - rwsz, r', b', s')"
proof -
  obtain r1 d h1 where a1: "respond e (hw s) (Eeprom_read rwsz) = ((r1, d), h1)"
    by (metis prod.exhaust)
  obtain r2 d2 h2 where
    a2: "respond e h1 (Sys_write fd (take rwsz (fill buffer d rwsz))) = ((r2, d2), h2)"
    by (metis prod.exhaust)
  from rw_body_e2f_eq [OF assms a1 a2] show ?thesis by blast
qed

text \<open>
  One round from the EEPROM to the file: the report made goes with the call to
  \<open>eeprom_read\<close>, and \<open>rwsz\<close> bytes are counted as moved.
\<close>

lemma rw_body_e2f_match:
  assumes ds: "data_size opt \<noteq> 0" and le: "left \<le> data_size opt"
    and big: "data_size opt * 100 < 2 ^ size_bits e"
    and rw: "rwsz \<le> left" "rwsz \<le> length buffer"
    and body: "rw_body_e2f e fd opt msg rwsz left ret buffer s = Inr (l', r', b', s')"
  shows "\<exists>xs cs. reports_added (data_size opt) (data_size opt - left) s s' xs cs
           \<and> moved_bytes cs = left - l' \<and> length b' = length buffer"
proof -
  let ?t = "data_size opt"
  let ?x = "Progress msg (int ((?t - left + rwsz) * 100 div ?t)) (?t - left + rwsz)"
  have rem: "left - rwsz \<le> ?t" using le by simp
  have cnt: "?t - (left - rwsz) = ?t - left + rwsz" using le rw(1) by simp
  have l: "log_eeprom_progress e ?t (left - rwsz) msg s = Inr (s\<lparr>logs := logs s @ [?x]\<rparr>)"
    by (rule log_progress_report [OF ds rem big, unfolded cnt])
  obtain a1 d h1 where a1: "respond e (hw s) (Eeprom_read rwsz) = ((a1, d), h1)"
    by (metis prod.exhaust)
  obtain a2 d2 h2 where
    a2: "respond e h1 (Sys_write fd (take rwsz (fill buffer d rwsz))) = ((a2, d2), h2)"
    by (metis prod.exhaust)
  let ?w = "Sys_write fd (take rwsz (fill buffer d rwsz))"
  from body have out: "l' = left - rwsz" "b' = fill buffer d rwsz"
    "logs s' = logs s @ [?x]"
    "trace s' = trace s @ (if a1 < 0 then [Eeprom_read rwsz] else [Eeprom_read rwsz, ?w])"
    unfolding rw_body_e2f_def l
    using a1 a2 by (auto simp: call_eq Let_def split: if_splits)
  let ?cs = "if a1 < 0 then [Eeprom_read rwsz] else [Eeprom_read rwsz, ?w]"
  have "reports_added ?t (?t - left) s s' [?x] ?cs"
    using out(3,4) by (simp add: reports_added_def)
  moreover have "moved_bytes ?cs = left - l'"
    using out(1) rw(1) by simp
  moreover have "length b' = length buffer"
    using out(2) rw(2) by (simp add: length_fill)
  ultimately show ?thesis by blast
qed

text \<open>
  One round from the file to the EEPROM: it ends in a result unless \<open>read\<close> answers more
  than it was asked for, and \<open>left\<close> does not grow.
\<close>

lemma rw_body_f2e_outcome:
  assumes ds: "data_size opt \<noteq> 0"
  shows "rw_body_f2e e fd opt msg rwsz left ret buffer s = Inl Read_overrun
       \<or> (\<exists>l' r' b' s'. rw_body_f2e e fd opt msg rwsz left ret buffer s = Inr (l', r', b', s')
             \<and> l' \<le> left)"
proof -
  obtain rdsz d h1 where rd: "respond e (hw s) (Sys_read fd rwsz) = ((rdsz, d), h1)"
    by (metis prod.exhaust)
  let ?s1 = "s\<lparr>hw := h1, trace := trace s @ [Sys_read fd rwsz]\<rparr>"
  show ?thesis
  proof (cases "rdsz > int rwsz \<or> rdsz < 0")
    case True
    then show ?thesis
      unfolding rw_body_f2e_def using rd by (auto simp: call_eq Let_def)
  next
    case False
    let ?b1 = "fill buffer d (nat rdsz)"
    from log_progress_Inr [OF ds, of e "left - nat rdsz" msg ?s1]
    obtain p b where
      l: "log_eeprom_progress e (data_size opt) (left - nat rdsz) msg ?s1 =
          Inr (?s1\<lparr>logs := logs ?s1 @ [Progress msg p b]\<rparr>)"
      by blast
    let ?s2 = "?s1\<lparr>logs := logs ?s1 @ [Progress msg p b]\<rparr>"
    obtain r2 d2 h3 where
      wr: "respond e h1 (Eeprom_write (take (nat rdsz) ?b1)) = ((r2, d2), h3)"
      by (metis prod.exhaust)
    let ?s3 = "?s2\<lparr>hw := h3, trace := trace ?s2 @ [Eeprom_write (take (nat rdsz) ?b1)]\<rparr>"
    show ?thesis
    proof (cases "r2 < 0 \<or> nat rdsz = rwsz \<or> \<not> zero_padding opt")
      case True
      then show ?thesis
        unfolding rw_body_f2e_def
        using rd False l wr by (auto simp: call_eq Let_def)
    next
      case pad: False
      obtain r s4 where
        p4: "pad_eeprom e (left - nat rdsz) opt (LOG_PRINT Newline ?s3) = Inr (r, s4)"
        using pad_eeprom_Inr [OF ds] by blast
      have "rw_body_f2e e fd opt msg rwsz left ret buffer s = Inr (0, r, ?b1, s4)"
        unfolding rw_body_f2e_def
        using rd False l wr pad p4 by (simp add: call_eq Let_def)
      then show ?thesis by simp
    qed
  qed
qed

text \<open>
  In such a round each report goes with a call to \<open>eeprom_write\<close>: the one that writes the
  bytes read, and those that write the zeros of the padding.
\<close>

lemma rw_body_f2e_match:
  assumes ds: "data_size opt \<noteq> 0" and le: "left \<le> data_size opt"
    and big: "data_size opt * 100 < 2 ^ size_bits e"
    and rw: "rwsz \<le> left" "rwsz \<le> length buffer"
    and body: "rw_body_f2e e fd opt msg rwsz left ret buffer s = Inr (l', r', b', s')"
  shows "\<exists>xs cs. reports_added (data_size opt) (data_size opt - left) s s' xs cs
           \<and> (r' = 0 \<and> l' \<noteq> 0 \<longrightarrow> moved_bytes cs = left - l')
           \<and> length b' = length buffer"
proof -
  let ?t = "data_size opt"
  obtain rdsz d h1 where rd: "respond e (hw s) (Sys_read fd rwsz) = ((rdsz, d), h1)"
    by (metis prod.exhaust)
  let ?rd = "Sys_read fd rwsz"
  let ?s1 = "s\<lparr>hw := h1, trace := trace s @ [?rd]\<rparr>"
  have over: "\<not> rdsz > int rwsz"
    using body rd unfolding rw_body_f2e_def by (auto simp: call_eq Let_def)
  show ?thesis
  proof (cases "rdsz < 0")
    case True
    with body rd over have out: "l' = left" "r' = - 1" "b' = buffer" "s' = ?s1"
      unfolding rw_body_f2e_def by (auto simp: call_eq Let_def)
    have "reports_added ?t (?t - left) s s' [] [?rd]"
      using out(4) by (simp add: reports_added_def)
    with out(2,3) show ?thesis by (intro exI [of _ "[]"] exI [of _ "[?rd]"]) simp
  next
    case False
    define k where "k = nat rdsz"
    have k: "k \<le> rwsz" "int k = rdsz" "nat rdsz = k"
      using False over by (simp_all add: k_def)
    let ?b1 = "fill buffer d k"
    let ?x = "Progress msg (int ((?t - left + k) * 100 div ?t)) (?t - left + k)"
    have lb: "length ?b1 = length buffer"
      using k(1) rw(2) by (simp add: length_fill)
    have rem: "left - k \<le> ?t" using le by simp
    have cnt: "?t - (left - k) = ?t - left + k" using le rw(1) k(1) by simp
    have l: "log_eeprom_progress e ?t (left - k) msg ?s1 = Inr (?s1\<lparr>logs := logs s @ [?x]\<rparr>)"
      using log_progress_report [OF ds rem big, of msg ?s1, unfolded cnt] by simp
    let ?wr = "Eeprom_write (take k ?b1)"
    have lw: "length (take k ?b1) = k"
      using lb k(1) rw(2) by simp
    obtain r2 d2 h3 where wr: "respond e h1 ?wr = ((r2, d2), h3)"
      by (metis prod.exhaust)
    let ?s3 = "s\<lparr>hw := h3, trace := trace s @ [?rd, ?wr], logs := logs s @ [?x]\<rparr>"
    have r3: "reports_added ?t (?t - left) s ?s3 [?x] [?rd, ?wr]"
      using lw by (simp add: reports_added_def)
    have m3: "moved_bytes [?rd, ?wr] = k"
      using lw by simp
    show ?thesis
    proof (cases "r2 < 0 \<or> k = rwsz \<or> \<not> zero_padding opt")
      case True
      with body rd False over l wr k(3)
      have out: "s' = ?s3" "b' = ?b1" "r' = 0 \<and> l' \<noteq> 0 \<longrightarrow> l' = left - rwsz \<and> k = rwsz"
        unfolding rw_body_f2e_def by (auto simp: call_eq Let_def split: if_splits)
      have "r' = 0 \<and> l' \<noteq> 0 \<longrightarrow> moved_bytes [?rd, ?wr] = left - l'"
        using out(3) m3 rw(1) by auto
      with r3 lb out(1,2) show ?thesis by blast
    next
      case pad: False
      let ?s3n = "LOG_PRINT Newline ?s3"
      have r3n: "reports_added ?t (?t - left) s ?s3n [?x, Newline] [?rd, ?wr]"
        using lw by (simp add: reports_added_def LOG_PRINT_def)
      obtain r s4 where p4: "pad_eeprom e (left - k) opt ?s3n = Inr (r, s4)"
        using pad_eeprom_Inr [OF ds] by blast
      from body rd False over l wr pad p4 k(3)
      have out: "l' = 0" "b' = ?b1" "s' = s4"
        unfolding rw_body_f2e_def by (auto simp: call_eq Let_def LOG_PRINT_def)
      from pad_eeprom_match [OF ds big rem p4] obtain xs cs where
        "reports_added ?t (?t - (left - k)) ?s3n s4 xs cs"
        by blast
      moreover have "?t - left + moved_bytes [?rd, ?wr] = ?t - (left - k)"
        by (simp only: m3 cnt)
      ultimately have "reports_added ?t (?t - left + moved_bytes [?rd, ?wr]) ?s3n s4 xs cs"
        by (simp only:)
      from reports_added_trans [OF r3n this] out lb show ?thesis by blast
    qed
  qed
qed

lemma rw_body_outcome:
  assumes "left \<noteq> 0" "left \<le> data_size opt"
  shows "rw_body e fd wfile opt msg left ret buffer s = Inl Read_overrun
       \<or> (\<exists>l' r' b' s'. rw_body e fd wfile opt msg left ret buffer s = Inr (l', r', b', s')
             \<and> l' \<le> left)"
proof -
  have ds: "data_size opt \<noteq> 0" using assms by auto
  let ?rwsz = "if left > buffer_size then buffer_size else left"
  show ?thesis
  proof (cases wfile)
    case True
    from rw_body_e2f_Inr [OF ds, of e fd msg ?rwsz left ret buffer s]
    obtain r' b' s' where
      b: "rw_body_e2f e fd opt msg ?rwsz left ret buffer s = Inr (left - ?rwsz, r', b', s')"
      by blast
    with True show ?thesis by (simp add: rw_body_True)
  next
    case False
    have eq: "rw_body e fd wfile opt msg left ret buffer s =
                rw_body_f2e e fd opt msg ?rwsz left ret buffer s"
      using False by (simp add: rw_body_False)
    show ?thesis
      unfolding eq by (rule rw_body_f2e_outcome [OF ds])
  qed
qed

lemma rw_body_match:
  assumes nz: "left \<noteq> 0" and le: "left \<le> data_size opt"
    and big: "data_size opt * 100 < 2 ^ size_bits e"
    and lb: "length buffer = buffer_size"
    and body: "rw_body e fd wfile opt msg left ret buffer s = Inr (l', r', b', s')"
  shows "\<exists>xs cs. reports_added (data_size opt) (data_size opt - left) s s' xs cs
           \<and> (r' = 0 \<and> l' \<noteq> 0 \<longrightarrow> moved_bytes cs = left - l')
           \<and> length b' = buffer_size"
proof -
  have ds: "data_size opt \<noteq> 0" using nz le by auto
  let ?rwsz = "if left > buffer_size then buffer_size else left"
  have rw: "?rwsz \<le> left" "?rwsz \<le> length buffer"
    using lb by simp_all
  show ?thesis
  proof (cases wfile)
    case True
    with body have "rw_body_e2f e fd opt msg ?rwsz left ret buffer s = Inr (l', r', b', s')"
      by (simp add: rw_body_True)
    from rw_body_e2f_match [OF ds le big rw this] lb show ?thesis by auto
  next
    case False
    with body have "rw_body_f2e e fd opt msg ?rwsz left ret buffer s = Inr (l', r', b', s')"
      by (simp add: rw_body_False)
    from rw_body_f2e_match [OF ds le big rw this] lb show ?thesis by auto
  qed
qed

lemma rw_loop_no_div:
  "left \<le> data_size opt \<Longrightarrow>
   rw_loop e fd wfile opt msg left ret buffer s \<noteq> Inl Division_by_zero"
proof (induction e fd wfile opt msg left ret buffer s rule: rw_loop.induct)
  case (1 e fd wfile opt msg left ret buffer s)
  show ?case
  proof (cases "left \<noteq> 0 \<and> ret = 0 \<and> \<not> g_abort (deliver e s)")
    case False
    then have "rw_loop e fd wfile opt msg left ret buffer s = Inr (ret, deliver e s)"
      by (intro rw_loop_stop) blast
    then show ?thesis by simp
  next
    case True
    from rw_body_outcome [of left opt e fd wfile msg ret buffer "deliver e s"] True "1.prems"
    consider "rw_body e fd wfile opt msg left ret buffer (deliver e s) = Inl Read_overrun"
      | l' r' b' s' where
        "rw_body e fd wfile opt msg left ret buffer (deliver e s) = Inr (l', r', b', s')"
        "l' \<le> left"
      by blast
    then show ?thesis
    proof cases
      case 1
      with True show ?thesis by (simp add: rw_loop_fault)
    next
      case 2
      from 2(2) "1.prems" have le: "l' \<le> data_size opt" by simp
      have "rw_loop e fd wfile opt msg l' r' b' s' \<noteq> Inl Division_by_zero"
        using "1.IH" [OF refl True 2(1) refl refl refl le] .
      moreover have "rw_loop e fd wfile opt msg left ret buffer s =
          rw_loop e fd wfile opt msg l' r' b' s'"
        using True 2(1) by (intro rw_loop_step) simp_all
      ultimately show ?thesis by simp
    qed
  qed
qed

text \<open>
  The loop, entered with \<open>left\<close> bytes to go of the total: the reports it makes go with
  the calls it makes, counted from the bytes moved before.
\<close>

lemma rw_loop_match:
  "left \<le> data_size opt \<Longrightarrow> data_size opt * 100 < 2 ^ size_bits e \<Longrightarrow>
   length buffer = buffer_size \<Longrightarrow>
   rw_loop e fd wfile opt msg left ret buffer s = Inr (r, sf) \<Longrightarrow>
   \<exists>xs cs. reports_added (data_size opt) (data_size opt - left) s sf xs cs"
proof (induction e fd wfile opt msg left ret buffer s rule: rw_loop.induct)
  case (1 e fd wfile opt msg left ret buffer s)
  let ?t = "data_size opt"
  obtain x0 where d0: "reports_added ?t (?t - left) s (deliver e s) x0 []"
    using reports_added_deliver by blast
  show ?case
  proof (cases "left \<noteq> 0 \<and> ret = 0 \<and> \<not> g_abort (deliver e s)")
    case False
    then have "rw_loop e fd wfile opt msg left ret buffer s = Inr (ret, deliver e s)"
      by (intro rw_loop_stop) blast
    with "1.prems"(4) have "sf = deliver e s" by simp
    with d0 show ?thesis by blast
  next
    case True
    from rw_body_outcome [of left opt e fd wfile msg ret buffer "deliver e s"] True "1.prems"(1)
    consider "rw_body e fd wfile opt msg left ret buffer (deliver e s) = Inl Read_overrun"
      | l' r' b' s' where
        "rw_body e fd wfile opt msg left ret buffer (deliver e s) = Inr (l', r', b', s')"
        "l' \<le> left"
      by blast
    then show ?thesis
    proof cases
      case 1
      with True "1.prems"(4) show ?thesis by (simp add: rw_loop_fault)
    next
      case 2
      from True "1.prems"(1) have nz: "left \<noteq> 0" by simp
      from rw_body_match [OF nz "1.prems"(1,2,3) 2(1)] obtain x1 c1 where
        b1: "reports_added ?t (?t - left) (deliver e s) s' x1 c1"
        and mv: "r' = 0 \<and> l' \<noteq> 0 \<longrightarrow> moved_bytes c1 = left - l'"
        and lb: "length b' = buffer_size"
        by blast
      from reports_added_trans [OF d0] b1
      have r1: "reports_added ?t (?t - left) s s' (x0 @ x1) c1" by simp
      from 2(2) "1.prems"(1) have le: "l' \<le> ?t" by simp
      have eq: "rw_loop e fd wfile opt msg left ret buffer s =
          rw_loop e fd wfile opt msg l' r' b' s'"
        using True 2(1) by (intro rw_loop_step) simp_all
      with "1.prems"(4) have rest: "rw_loop e fd wfile opt msg l' r' b' s' = Inr (r, sf)"
        by simp
      have "\<exists>x2 c2. reports_added ?t (?t - left + moved_bytes (c1)) s' sf x2 c2"
      proof (cases "r' = 0 \<and> l' \<noteq> 0")
        case go: True
        from "1.IH" [OF refl True 2(1) refl refl refl le "1.prems"(2) lb rest]
        obtain x2 c2 where "reports_added ?t (?t - l') s' sf x2 c2" by blast
        moreover have "?t - l' = ?t - left + moved_bytes c1"
          using go mv 2(2) "1.prems"(1) by simp
        ultimately show ?thesis by auto
      next
        case stop: False
        then have "rw_loop e fd wfile opt msg l' r' b' s' = Inr (r', deliver e s')"
          by (intro rw_loop_stop) blast
        with rest have "sf = deliver e s'" by simp
        then show ?thesis using reports_added_deliver by blast
      qed
      then obtain x2 c2 where
        "reports_added ?t (?t - left + moved_bytes c1) s' sf x2 c2" by blast
      from reports_added_trans [OF r1 this] show ?thesis by blast
    qed
  qed
qed

lemma rw_file_eeprom_no_div: "rw_file_eeprom e fd wfile opt s \<noteq> Inl Division_by_zero"
proof (cases "rw_enter e opt s")
  case None
  then show ?thesis
    by (auto simp: rw_enter_def rw_file_eeprom_def Let_def split: prod.splits if_splits)
next
  case (Some a)
  then obtain buffer s0 where en: "rw_enter e opt s = Some (buffer, s0)" by (cases a) auto
  have "rw_loop e fd wfile opt (if wfile then ''Reading'' else ''Writing'')
          (data_size opt) 0 buffer s0 \<noteq> Inl Division_by_zero"
    by (rule rw_loop_no_div) simp
  then show ?thesis
    unfolding rw_enter_loop(1) [OF en] by (auto split: sum.splits)
qed

lemma rw_enter_state:
  assumes "rw_enter e opt s = Some (buffer, s0)"
  shows "trace s0 = trace s @ [Malloc 4096, Eeprom_seek (skip opt)]" "logs s0 = logs s"
  using assms
  by (auto simp: rw_enter_def call_eq Let_def buffer_size_def split: prod.splits if_splits)

lemma rw_file_eeprom_match:
  assumes run: "rw_file_eeprom e fd wfile opt s = Inr (r, s')"
    and big: "data_size opt * 100 < 2 ^ size_bits e"
  shows "reports_match (data_size opt) 0 s s'"
proof (cases "rw_enter e opt s")
  case None
  with run have "reports_added (data_size opt) 0 s s'
      [Msg ''failed to allocate buffer''] [Malloc buffer_size]"
    by (auto simp: rw_enter_def rw_file_eeprom_def Let_def call_eq LOG_def reports_added_def
        split: prod.splits if_splits)
  then show ?thesis by (rule reports_added_match)
next
  case (Some a)
  then obtain buffer s0 where en: "rw_enter e opt s = Some (buffer, s0)" by (cases a) auto
  let ?t = "data_size opt"
  from run obtain s3 where
    lp: "rw_loop e fd wfile opt (if wfile then ''Reading'' else ''Writing'')
          ?t 0 buffer s0 = Inr (r, s3)"
    and s': "s' = LOG_PRINT Newline s3"
    unfolding rw_enter_loop(1) [OF en] by (auto split: sum.splits)
  have lb: "length buffer = buffer_size"
    using rw_enter_loop(2) [OF en] by (simp add: buffer_size_def)
  from rw_loop_match [OF _ big lb lp] obtain xs cs where
    "reports_added ?t (?t - ?t) s0 s3 xs cs" by auto
  with rw_enter_state [OF en]
  have "reports_added ?t 0 s s' (xs @ [Newline]) ([Malloc 4096, Eeprom_seek (skip opt)] @ cs)"
    by (simp add: s' reports_added_def LOG_PRINT_def expected_reports_append)
  then show ?thesis by (rule reports_added_match)
qed

lemma run_eeprom_default_size:
  assumes "2 \<le> length argv"
  shows "run_eeprom e (Some (0, opt\<lparr>data_size := 0\<rparr>)) argv s =
         run_eeprom e (Some (0, opt\<lparr>data_size :=
            nat (fst (fst (respond e (hw (eeprom_ready e (argv ! 0) s)) Eeprom_get_size)))\<rparr>))
           argv s"
proof -
  obtain p d0 h0 where i: "respond e (hw s) (Eeprom_init (argv ! 0)) = ((p, d0), h0)"
    by (metis prod.exhaust)
  obtain esize d h1 where
    g: "respond e (hw (eeprom_ready e (argv ! 0) s)) Eeprom_get_size = ((esize, d), h1)"
    by (metis prod.exhaust)
  show ?thesis
  proof (cases "eeprom s")
    case True
    with assms g show ?thesis
      by (cases "nat esize = 0") (simp_all add: run_eeprom_def eeprom_ready_def call_eq Let_def)
  next
    case False
    with assms g i show ?thesis
      by (cases "nat esize = 0") (simp_all add: run_eeprom_def eeprom_ready_def call_eq Let_def)
  qed
qed

lemma run_eeprom_no_options:
  "run_eeprom e None argv s = run_eeprom e (Some (0, eeprom_opt_init\<lparr>data_size := 0\<rparr>)) argv s"
  by (simp add: run_eeprom_def eeprom_opt_init_def)

text \<open>
  C8, as the code has it. No transfer divides by zero: \<open>log_eeprom_progress\<close> is reached
  only inside the loops, where the total is at least \<open>left\<close> and \<open>left\<close> is not zero. A job
  of total size zero is not refused: \<open>rw_file_eeprom\<close> allocates, seeks, enters no round and
  returns 0, and \<open>run_eeprom\<close> given no data size, or a data size of zero, runs the job
  with the size of the EEPROM instead, whether it has the handle of the EEPROM already
  or makes it. In every transfer whose total times 100 fits \<open>size_t\<close>, the progress
  reports are those that go with the calls to \<open>eeprom_read\<close> and \<open>eeprom_write\<close> made, one
  for each, in their order: each shows the number of bytes these calls have moved up to
  and with its own call, and the floor of that number times 100 over the total, which is
  what \<open>log_eeprom_progress\<close> computes from the bytes that remain.
\<close>

theorem total_size_zero_and_progress:
  "rw_file_eeprom e fd wfile opt s \<noteq> Inl Division_by_zero
   \<and> (\<forall>buffer s0. data_size opt = 0 \<and> rw_enter e opt s = Some (buffer, s0) \<longrightarrow>
         rw_file_eeprom e fd wfile opt s = Inr (0, LOG_PRINT Newline (deliver e s0))
         \<and> trace (LOG_PRINT Newline (deliver e s0)) =
             trace s @ [Malloc 4096, Eeprom_seek (skip opt)])
   \<and> (\<forall>r s'. rw_file_eeprom e fd wfile opt s = Inr (r, s')
               \<and> data_size opt * 100 < 2 ^ size_bits e \<longrightarrow>
         reports_match (data_size opt) 0 s s')
   \<and> (total_sz \<noteq> 0 \<and> rem \<le> total_sz \<and> (total_sz - rem) * 100 < 2 ^ size_bits e \<longrightarrow>
         log_eeprom_progress e total_sz rem msg s =
           Inr (LOG_PRINT (Progress msg (int ((total_sz - rem) * 100 div total_sz))
                  (total_sz - rem)) s))
   \<and> (2 \<le> length argv \<longrightarrow>
         run_eeprom e (Some (0, opt\<lparr>data_size := 0\<rparr>)) argv s =
         run_eeprom e (Some (0, opt\<lparr>data_size :=
            nat (fst (fst (respond e (hw (eeprom_ready e (argv ! 0) s)) Eeprom_get_size)))\<rparr>))
           argv s)
   \<and> run_eeprom e None argv s =
       run_eeprom e (Some (0, eeprom_opt_init\<lparr>data_size := 0\<rparr>)) argv s"
proof -
  have z: "\<forall>buffer s0. data_size opt = 0 \<and> rw_enter e opt s = Some (buffer, s0) \<longrightarrow>
         rw_file_eeprom e fd wfile opt s = Inr (0, LOG_PRINT Newline (deliver e s0))
         \<and> trace (LOG_PRINT Newline (deliver e s0)) =
             trace s @ [Malloc 4096, Eeprom_seek (skip opt)]"
  proof (intro allI impI, elim conjE)
    fix buffer s0
    assume d: "data_size opt = 0" and en: "rw_enter e opt s = Some (buffer, s0)"
    show "rw_file_eeprom e fd wfile opt s = Inr (0, LOG_PRINT Newline (deliver e s0))
         \<and> trace (LOG_PRINT Newline (deliver e s0)) =
             trace s @ [Malloc 4096, Eeprom_seek (skip opt)]"
      unfolding rw_enter_loop(1) [OF en]
      using d rw_enter_state(1) [OF en] by (simp add: rw_loop_stop LOG_PRINT_def)
  qed
  have p: "total_sz \<noteq> 0 \<and> rem \<le> total_sz \<and> (total_sz - rem) * 100 < 2 ^ size_bits e \<longrightarrow>
         log_eeprom_progress e total_sz rem msg s =
           Inr (LOG_PRINT (Progress msg (int ((total_sz - rem) * 100 div total_sz))
                  (total_sz - rem)) s)"
    using log_progress_floor by blast
  have r: "\<forall>r s'. rw_file_eeprom e fd wfile opt s = Inr (r, s')
               \<and> data_size opt * 100 < 2 ^ size_bits e \<longrightarrow>
         reports_match (data_size opt) 0 s s'"
    using rw_file_eeprom_match by blast
  have q: "2 \<le> length argv \<longrightarrow>
         run_eeprom e (Some (0, opt\<lparr>data_size := 0\<rparr>)) argv s =
         run_eeprom e (Some (0, opt\<lparr>data_size :=
            nat (fst (fst (respond e (hw (eeprom_ready e (argv ! 0) s)) Eeprom_get_size)))\<rparr>))
           argv s"
    using run_eeprom_default_size by blast
  from rw_file_eeprom_no_div z r p q run_eeprom_no_options show ?thesis by (intro conjI)
qed

text \<open>
  A job of zero bytes is run and reported as done, by \<open>rw_file_eeprom\<close> and by the
  command \<open>eeprom 24c01 e2f\<close> on an EEPROM of size zero. Where \<open>size_t\<close> has 32 bits, the
  last report of a job of 50000000 bytes shows 14 percent, not 100: the product by 100
  has wrapped around.
\<close>

theorem total_size_zero_counterexample:
  "rw_file_eeprom (scripted plain 1000) 1 True (job 0) (opened 0) =
     Inr (0, (opened 2)\<lparr>trace := [Malloc 4096, Eeprom_seek 0], logs := [Newline]\<rparr>)
   \<and> run_eeprom eeprom_world None [''24c01'', ''e2f''] (fresh (eworld_init [] [])) =
     Inr (0, (fresh ((eworld_init [] [])\<lparr>ticks := 4\<rparr>))\<lparr>
        eeprom := True,
        trace := [Eeprom_init ''24c01'', Eeprom_get_size, Malloc 4096, Eeprom_seek 0],
        logs := [Newline]\<rparr>)
   \<and> log_eeprom_progress (scripted plain 1000) 50000000 0 ''Reading'' (opened 0) =
     Inr (LOG_PRINT (Progress ''Reading'' 14 50000000) (opened 0))"
  by (simp add: run_defs rw_loop.simps run_eeprom_def run_eeprom_file_def STDOUT_FILENO_def
      eeprom_world_def eeprom_respond_def eworld_init_def fresh_def)

text \<open>
  A job of 1100 bytes from a file that gives 1000 bytes, with padding: one report for
  each of the three writes to the EEPROM.
\<close>

lemma padded_run:
  "rw_file_eeprom (scripted short_source 1000) 0 False ((job 1100)\<lparr>zero_padding := True\<rparr>)
     (opened 0) =
     Inr (0, (opened 6)\<lparr>
        trace := [Malloc 4096, Eeprom_seek 0, Sys_read 0 1100,
                  Eeprom_write (replicate 1000 171), Eeprom_write (replicate 64 0),
                  Eeprom_write (replicate 36 0)],
        logs := [Progress ''Writing'' 90 1000, Newline, Progress ''Padding'' 96 1064,
                 Progress ''Padding'' 100 1100, Newline]\<rparr>)"
  by (simp add: run_defs rw_loop.simps pad_eeprom.simps short_source_def)

text \<open>
  2500 of 10000 bytes is reported as 25 percent; the job of zero bytes; the reports of a
  job of 10000 bytes read from the EEPROM and of the padded job above; the command
  \<open>eeprom 24c01 e2f\<close> with a data size of zero on an EEPROM of four bytes, started with no
  handle, moves the four bytes.
\<close>

theorem total_size_zero_and_progress_witness:
  "log_eeprom_progress (scripted plain 1000) 10000 7500 ''Reading'' (opened 0) =
     Inr (LOG_PRINT (Progress ''Reading'' 25 2500) (opened 0))
   \<and> rw_file_eeprom (scripted plain 1000) 1 True (job 0) (opened 0) =
     Inr (0, LOG_PRINT Newline (deliver (scripted plain 1000)
        ((opened 2)\<lparr>trace := [Malloc 4096, Eeprom_seek 0]\<rparr>)))
   \<and> reports_match 10000 0 (opened (0::nat))
        ((opened 8)\<lparr>
           trace := [Malloc 4096, Eeprom_seek 0, Eeprom_read 4096, Sys_write 1 (replicate 4096 0),
                     Eeprom_read 4096, Sys_write 1 (replicate 4096 0),
                     Eeprom_read 1808, Sys_write 1 (replicate 1808 0)],
           logs := [Progress ''Reading'' 40 4096, Progress ''Reading'' 81 8192,
                    Progress ''Reading'' 100 10000, Newline]\<rparr>)
   \<and> reports_match 1100 0 (opened (0::nat))
        ((opened 6)\<lparr>
           trace := [Malloc 4096, Eeprom_seek 0, Sys_read 0 1100,
                     Eeprom_write (replicate 1000 171), Eeprom_write (replicate 64 0),
                     Eeprom_write (replicate 36 0)],
           logs := [Progress ''Writing'' 90 1000, Newline, Progress ''Padding'' 96 1064,
                    Progress ''Padding'' 100 1100, Newline]\<rparr>)
   \<and> run_eeprom eeprom_world (Some (0, job 0)) [''24c01'', ''e2f'']
        (fresh (eworld_init [1, 2, 3, 4] [])) =
     Inr (0, (fresh ((eworld_init [1, 2, 3, 4] [])\<lparr>pos := 4, sink := [1, 2, 3, 4],
                       ticks := 6\<rparr>))\<lparr>
        eeprom := True,
        trace := [Eeprom_init ''24c01'', Eeprom_get_size, Malloc 4096, Eeprom_seek 0,
                  Eeprom_read 4, Sys_write 1 [1, 2, 3, 4]],
        logs := [Progress ''Reading'' 100 4, Newline]\<rparr>)"
proof -
  let ?e = "scripted plain 1000"
  let ?f = "scripted short_source 1000"
  let ?argv = "[''24c01'', ''e2f'']"
  let ?s = "fresh (eworld_init [1, 2, 3, 4] [])"
  have h: "(10000::nat) \<noteq> 0 \<and> (7500::nat) \<le> 10000
             \<and> (10000 - 7500) * 100 < (2::nat) ^ size_bits ?e"
    by (simp add: scripted_def)
  have en: "data_size (job 0) = 0 \<and> rw_enter ?e (job 0) (opened 0) =
      Some (replicate 4096 0, (opened 2)\<lparr>trace := [Malloc 4096, Eeprom_seek 0]\<rparr>)"
    by (simp add: rw_enter_def run_defs)
  have big: "data_size (job 10000) * 100 < 2 ^ size_bits ?e"
    "data_size ((job 1100)\<lparr>zero_padding := True\<rparr>) * 100 < 2 ^ size_bits ?f"
    by (simp_all add: job_def scripted_def)
  have ds: "data_size (job 10000) = 10000" "data_size ((job 1100)\<lparr>zero_padding := True\<rparr>) = 1100"
    by (simp_all add: job_def)
  have len: "2 \<le> length ?argv"
    by simp
  have sz: "nat (fst (fst (respond eeprom_world (hw (eeprom_ready eeprom_world (?argv ! 0) ?s))
               Eeprom_get_size))) = 4"
    by (simp add: eeprom_ready_def call_def eeprom_world_def eeprom_respond_def eworld_init_def
        fresh_def is_init_def)
  have run: "run_eeprom eeprom_world (Some (0, eeprom_opt_init\<lparr>data_size := 4\<rparr>)) ?argv ?s =
     Inr (0, (fresh ((eworld_init [1, 2, 3, 4] [])\<lparr>pos := 4, sink := [1, 2, 3, 4],
                       ticks := 6\<rparr>))\<lparr>
        eeprom := True,
        trace := [Eeprom_init ''24c01'', Eeprom_get_size, Malloc 4096, Eeprom_seek 0,
                  Eeprom_read 4, Sys_write 1 [1, 2, 3, 4]],
        logs := [Progress ''Reading'' 100 4, Newline]\<rparr>)"
    by (simp add: run_defs rw_loop.simps run_eeprom_def run_eeprom_file_def STDOUT_FILENO_def
        eeprom_world_def eeprom_respond_def eworld_init_def fresh_def)
  note a = total_size_zero_and_progress
    [of ?e 1 True "job 0" "opened 0" 10000 7500 "''Reading''" "[]"]
  note b = total_size_zero_and_progress
    [of ?e 1 True "job 10000" "opened 0" 10000 7500 "''Reading''" "[]"]
  note c = total_size_zero_and_progress
    [of ?f 0 False "(job 1100)\<lparr>zero_padding := True\<rparr>" "opened 0" 10000 7500 "''Reading''" "[]"]
  note d = total_size_zero_and_progress
    [of eeprom_world 1 True eeprom_opt_init ?s 10000 7500 "''Reading''" ?argv]
  from a h have 1: "log_eeprom_progress ?e 10000 7500 ''Reading'' (opened 0) =
     Inr (LOG_PRINT (Progress ''Reading'' 25 2500) (opened 0))"
    by simp
  from a en have 2: "rw_file_eeprom ?e 1 True (job 0) (opened 0) =
     Inr (0, LOG_PRINT Newline (deliver ?e
        ((opened 2)\<lparr>trace := [Malloc 4096, Eeprom_seek 0]\<rparr>)))"
    by blast
  from b full_run big(1) have 3: "reports_match (data_size (job 10000)) 0 (opened (0::nat))
        ((opened 8)\<lparr>
           trace := [Malloc 4096, Eeprom_seek 0, Eeprom_read 4096, Sys_write 1 (replicate 4096 0),
                     Eeprom_read 4096, Sys_write 1 (replicate 4096 0),
                     Eeprom_read 1808, Sys_write 1 (replicate 1808 0)],
           logs := [Progress ''Reading'' 40 4096, Progress ''Reading'' 81 8192,
                    Progress ''Reading'' 100 10000, Newline]\<rparr>)"
    by blast
  from c padded_run big(2)
  have 4: "reports_match (data_size ((job 1100)\<lparr>zero_padding := True\<rparr>)) 0 (opened (0::nat))
        ((opened 6)\<lparr>
           trace := [Malloc 4096, Eeprom_seek 0, Sys_read 0 1100,
                     Eeprom_write (replicate 1000 171), Eeprom_write (replicate 64 0),
                     Eeprom_write (replicate 36 0)],
           logs := [Progress ''Writing'' 90 1000, Newline, Progress ''Padding'' 96 1064,
                    Progress ''Padding'' 100 1100, Newline]\<rparr>)"
    by blast
  from d len have "run_eeprom eeprom_world (Some (0, eeprom_opt_init\<lparr>data_size := 0\<rparr>)) ?argv ?s =
      run_eeprom eeprom_world (Some (0, eeprom_opt_init\<lparr>data_size :=
         nat (fst (fst (respond eeprom_world (hw (eeprom_ready eeprom_world (?argv ! 0) ?s))
               Eeprom_get_size)))\<rparr>)) ?argv ?s"
    by blast
  then have 5: "run_eeprom eeprom_world (Some (0, job 0)) ?argv ?s =
     Inr (0, (fresh ((eworld_init [1, 2, 3, 4] [])\<lparr>pos := 4, sink := [1, 2, 3, 4],
                       ticks := 6\<rparr>))\<lparr>
        eeprom := True,
        trace := [Eeprom_init ''24c01'', Eeprom_get_size, Malloc 4096, Eeprom_seek 0,
                  Eeprom_read 4, Sys_write 1 [1, 2, 3, 4]],
        logs := [Progress ''Reading'' 100 4, Newline]\<rparr>)"
    unfolding sz run by (simp add: job_def)
  from 1 2 3 4 5 show ?thesis by (simp only: ds)
qed

section \<open>EEPROM self-test: proofs\<close>

lemma compare_from_None:
  "length rs = length ws \<Longrightarrow> compare_from k rs ws = None \<longleftrightarrow> rs = ws"
  by (induction k rs ws rule: compare_from.induct) auto

lemma compare_from_first:
  "i < length rs \<Longrightarrow> i < length ws \<Longrightarrow> rs ! i \<noteq> ws ! i \<Longrightarrow> \<forall>j<i. rs ! j = ws ! j \<Longrightarrow>
   compare_from k rs ws = Some (k + i)"
proof (induction k rs ws arbitrary: i rule: compare_from.induct)
  case (1 k r rs w ws)
  show ?case
  proof (cases i)
    case 0
    with "1.prems" show ?thesis by simp
  next
    case (Suc i')
    with "1.prems" have eq: "r = w" by auto
    have "compare_from (Suc k) rs ws = Some (Suc k + i')"
    proof (rule "1.IH")
      show "\<not> r \<noteq> w" using eq by simp
      show "i' < length rs" "i' < length ws" using "1.prems" Suc by simp_all
      show "rs ! i' \<noteq> ws ! i'" using "1.prems" Suc by simp
      show "\<forall>j<i'. rs ! j = ws ! j" using "1.prems"(4) Suc by auto
    qed
    with eq Suc show ?thesis by simp
  qed
qed simp_all

lemma length_fill_random: "fill_random e n s = (bs, s') \<Longrightarrow> length bs = n"
proof (induction n arbitrary: s bs s')
  case 0
  then show ?case by simp
next
  case (Suc n)
  obtain r d s1 where c: "call e Rand s = ((r, d), s1)" by (metis prod.exhaust)
  obtain bs1 s2 where f: "fill_random e n s1 = (bs1, s2)" by (metis prod.exhaust)
  from Suc.prems c f have "bs = word_of_int r # bs1" by simp
  with Suc.IH [OF f] show ?case by simp
qed

lemma dump_hex_data_inside:
  "start + sz \<le> length data \<Longrightarrow>
   dump_hex_data data start sz s =
     Inr (if sz = 0 then s else LOG_PRINT (Hex start sz (take sz (drop start data))) s)"
  by (simp add: dump_hex_data_def)

lemma dump_hex_data_outside:
  "sz \<noteq> 0 \<Longrightarrow> length data < start + sz \<Longrightarrow>
   dump_hex_data data start sz s = Inl Buffer_overread"
  by (simp add: dump_hex_data_def)

text \<open>
  The first parts of the self-test dump the start of each buffer, which never leaves the
  buffer: they end in no fault, and both buffers have the data size.
\<close>

lemma dump_hex_data_start:
  "length bs = n \<Longrightarrow> \<exists>s'. dump_hex_data bs 0 (min 256 n) s = Inr s'"
  by (simp add: dump_hex_data_inside)

lemma full_rw_write_Inr:
  "\<exists>data_w ret s'. full_rw_write e opt s = Inr (data_w, ret, s')
      \<and> length data_w = data_size opt"
proof -
  obtain t d3 s4 where c3: "call e Time (LOG ''preparing buffers ...'' s) = ((t, d3), s4)"
    by (metis prod.exhaust)
  obtain r5 s5 where c4: "call e (Srand t) s4 = (r5, s5)"
    by (metis prod.exhaust)
  obtain data_w s6 where f: "fill_random e (data_size opt) s5 = (data_w, s6)"
    by (metis prod.exhaust)
  have lw: "length data_w = data_size opt"
    using length_fill_random [OF f] .
  from dump_hex_data_start [OF lw]
  obtain s7 where d: "dump_hex_data data_w 0 (min 256 (data_size opt))
       (LOG ''beginning of the data to be written:'' s6) = Inr s7"
    by blast
  show ?thesis
    by (simp add: full_rw_write_def Let_def c3 c4 f d lw split: prod.splits)
qed

lemma full_rw_read_Inr:
  "\<exists>data_r ret' s'. full_rw_read e opt ret s = Inr (data_r, ret', s')
      \<and> length data_r = data_size opt"
proof -
  obtain r13 s13 where
    c1: "call e (Eeprom_seek 0) (LOG ''reading the EEPROM ...'' s) = (r13, s13)"
    by (metis prod.exhaust)
  obtain rr d s14 where c2: "call e (Eeprom_read (data_size opt)) s13 = ((rr, d), s14)"
    by (metis prod.exhaust)
  let ?r = "fill (replicate (data_size opt) 0) d (data_size opt)"
  have lr: "length ?r = data_size opt"
    by (simp add: length_fill)
  from dump_hex_data_start [OF lr]
  have d: "\<exists>s'. dump_hex_data ?r 0 (min 256 (data_size opt)) sa = Inr s'" for sa :: "'a state"
    by blast
  obtain s16 where d1: "dump_hex_data ?r 0 (min 256 (data_size opt))
      (LOG ''beginning of the data read back:'' (LOG ''failed to read data'' s14)) = Inr s16"
    using d by blast
  obtain s17 where d2: "dump_hex_data ?r 0 (min 256 (data_size opt))
      (LOG ''beginning of the data read back:'' s14) = Inr s17"
    using d by blast
  show ?thesis
    by (simp add: full_rw_read_def Let_def c1 c2 d1 d2 lr)
qed

lemma full_rw_io_lengths:
  assumes "full_rw_io e opt s = Inr (Some (data_w, data_r, ret), s1)"
  shows "length data_w = data_size opt \<and> length data_r = data_size opt"
proof -
  obtain pw d1 sa where c1: "call e (Malloc (data_size opt)) s = ((pw, d1), sa)"
    by (metis prod.exhaust)
  obtain pr d2 sb where c2: "call e (Malloc (data_size opt)) sa = ((pr, d2), sb)"
    by (metis prod.exhaust)
  obtain w ret1 sc where w: "full_rw_write e opt sb = Inr (w, ret1, sc)"
    "length w = data_size opt"
    using full_rw_write_Inr by blast
  obtain r ret2 sd where r: "full_rw_read e opt ret1 sc = Inr (r, ret2, sd)"
    "length r = data_size opt"
    using full_rw_read_Inr by blast
  from assms have "w = data_w \<and> r = data_r"
    by (simp add: full_rw_io_def Let_def c1 c2 w(1) r(1) split: if_splits)
  with w(2) r(2) show ?thesis by simp
qed

lemma full_rw_io_no_fault: "full_rw_io e opt s \<noteq> Inl f"
proof -
  obtain pw d1 sa where c1: "call e (Malloc (data_size opt)) s = ((pw, d1), sa)"
    by (metis prod.exhaust)
  obtain pr d2 sb where c2: "call e (Malloc (data_size opt)) sa = ((pr, d2), sb)"
    by (metis prod.exhaust)
  obtain w ret1 sc where w: "full_rw_write e opt sb = Inr (w, ret1, sc)"
    using full_rw_write_Inr by blast
  obtain r ret2 sd where r: "full_rw_read e opt ret1 sc = Inr (r, ret2, sd)"
    using full_rw_read_Inr by blast
  show ?thesis
    by (simp add: full_rw_io_def Let_def c1 c2 w r)
qed

text \<open>
  What the self-test does with the two buffers, whatever the first part left in \<open>ret\<close>.
  With \<open>i\<close> the first index where they differ, the address \<open>i\<close> and the start of the dump,
  \<open>i - 128\<close> or 0, are logged; when the window of \<open>min 256 (data_size opt)\<close> bytes from that
  start lies in the buffers, both are dumped and the result is -1; when it does not, the
  dump reads past the end of the buffer of written data. Equal buffers give \<open>ret\<close>, and
  \<open>All good.\<close> is logged when \<open>ret\<close> is 0.
\<close>

lemma full_rw_eeprom_mismatch:
  assumes io: "full_rw_io e opt s = Inr (Some (data_w, data_r, ret), s1)"
    and i: "i < data_size opt" "data_r ! i \<noteq> data_w ! i" "\<forall>j<i. data_r ! j = data_w ! j"
  shows "full_rw_eeprom e opt s =
           (if (i - 128) + min 256 (data_size opt) \<le> data_size opt
            then Inr (- 1, s1\<lparr>logs := logs s1 @
                   [Msg ''comparing results ...'',
                    Addr ''error found at address'' i,
                    Addr ''dump start at'' (i - 128),
                    Msg ''written:'',
                    Hex (i - 128) (min 256 (data_size opt))
                      (take (min 256 (data_size opt)) (drop (i - 128) data_w)),
                    Msg ''read:'',
                    Hex (i - 128) (min 256 (data_size opt))
                      (take (min 256 (data_size opt)) (drop (i - 128) data_r))]\<rparr>)
            else Inl Buffer_overread)"
proof -
  note len = full_rw_io_lengths [OF io]
  have run: "full_rw_eeprom e opt s = full_rw_compare opt data_w data_r ret s1"
    by (simp add: full_rw_eeprom_def io)
  have c: "compare_from 0 data_r data_w = Some i"
    using compare_from_first [of i data_r data_w 0] i len by simp
  have addr: "(if i > 128 then i - 128 else 0) = i - 128"
    by auto
  have pos: "min 256 (data_size opt) \<noteq> 0" using i(1) by simp
  show ?thesis
  proof (cases "(i - 128) + min 256 (data_size opt) \<le> data_size opt")
    case True
    then have w: "dump_hex_data data_w (i - 128) (min 256 (data_size opt)) sa =
        Inr (LOG_PRINT (Hex (i - 128) (min 256 (data_size opt))
               (take (min 256 (data_size opt)) (drop (i - 128) data_w))) sa)"
      and r: "dump_hex_data data_r (i - 128) (min 256 (data_size opt)) sa =
        Inr (LOG_PRINT (Hex (i - 128) (min 256 (data_size opt))
               (take (min 256 (data_size opt)) (drop (i - 128) data_r))) sa)"
      for sa :: "'a state"
      using pos len by (simp_all add: dump_hex_data_inside)
    have "full_rw_compare opt data_w data_r ret s1 =
        Inr (- 1, s1\<lparr>logs := logs s1 @
                   [Msg ''comparing results ...'',
                    Addr ''error found at address'' i,
                    Addr ''dump start at'' (i - 128),
                    Msg ''written:'',
                    Hex (i - 128) (min 256 (data_size opt))
                      (take (min 256 (data_size opt)) (drop (i - 128) data_w)),
                    Msg ''read:'',
                    Hex (i - 128) (min 256 (data_size opt))
                      (take (min 256 (data_size opt)) (drop (i - 128) data_r))]\<rparr>)"
      unfolding full_rw_compare_def Let_def c option.case addr w r sum.case
      by (simp add: LOG_def LOG_PRINT_def)
    with True show ?thesis by (simp only: run if_True)
  next
    case False
    then have "length data_w < (i - 128) + min 256 (data_size opt)"
      using len by simp
    from dump_hex_data_outside [OF pos this]
    have w: "dump_hex_data data_w (i - 128) (min 256 (data_size opt)) sa = Inl Buffer_overread"
      for sa :: "'a state" .
    have "full_rw_compare opt data_w data_r ret s1 = Inl Buffer_overread"
      unfolding full_rw_compare_def Let_def c option.case addr w sum.case ..
    with False show ?thesis by (simp only: run if_False)
  qed
qed

lemma full_rw_eeprom_equal:
  assumes io: "full_rw_io e opt s = Inr (Some (data_w, data_r, ret), s1)"
    and eq: "data_r = data_w"
  shows "full_rw_eeprom e opt s =
           Inr (ret, s1\<lparr>logs := logs s1 @ Msg ''comparing results ...'' #
                  (if ret = 0 then [Msg ''All good.''] else [])\<rparr>)"
proof -
  have "compare_from 0 data_r data_w = None"
    using compare_from_None [of data_r data_w 0] eq by simp
  then show ?thesis
    by (simp add: full_rw_eeprom_def io full_rw_compare_def Let_def LOG_def)
qed

text \<open>In a world that answers each call by itself, \<open>rand\<close> gives the same byte each time.\<close>

lemma call_scripted:
  "call (scripted f sig) c s = (f c, s\<lparr>hw := Suc (hw s), trace := trace s @ [c]\<rparr>)"
  by (simp add: call_def scripted_def)

lemma fill_random_scripted:
  "fill_random (scripted f sig) n s =
     (replicate n (word_of_int (fst (f Rand))),
      s\<lparr>hw := hw s + n, trace := trace s @ replicate n Rand\<rparr>)"
proof (induction n arbitrary: s)
  case 0
  then show ?case by simp
next
  case (Suc n)
  show ?case
    by (simp add: Suc.IH call_scripted replicate_app_Cons_same split: prod.splits)
qed

lemmas selftest_defs =
  full_rw_io_def full_rw_write_def full_rw_read_def fill_random_scripted call_scripted selftest_def
  plain_def opened_def Let_def job_def eeprom_opt_init_def LOG_def LOG_PRINT_def
  dump_hex_data_def fill_def is_init_def

text \<open>
  The self-test of 4096 bytes in which the byte read back at index 1000 is the first
  that differs: the window from 872 lies in the buffers, both are dumped and the result
  is -1. With \<open>eeprom_write\<close> answering -1 and the bytes read back equal to those written,
  the result is -1 too, and \<open>All good.\<close> is not logged.
\<close>

lemma full_rw_eeprom_inside:
  "full_rw_eeprom (scripted (selftest (replicate 1000 7 @ 0 # replicate 3095 7)) 1000)
     (job 4096) (opened 0) =
   Inr (- 1, (opened 4104)\<lparr>
     trace := [Malloc 4096, Malloc 4096, Time, Srand 0] @ replicate 4096 Rand @
              [Eeprom_seek 0, Eeprom_write (replicate 4096 7), Eeprom_seek 0, Eeprom_read 4096],
     logs := [Msg ''preparing buffers ...'', Msg ''beginning of the data to be written:'',
              Hex 0 256 (replicate 256 7), Msg ''writing to EEPROM ...'',
              Msg ''reading the EEPROM ...'', Msg ''beginning of the data read back:'',
              Hex 0 256 (replicate 256 7), Msg ''comparing results ...'',
              Addr ''error found at address'' 1000, Addr ''dump start at'' 872,
              Msg ''written:'', Hex 872 256 (replicate 256 7),
              Msg ''read:'', Hex 872 256 (replicate 128 7 @ 0 # replicate 127 7)]\<rparr>)"
proof -
  let ?e = "scripted (selftest (replicate 1000 7 @ 0 # replicate 3095 7)) 1000"
  let ?r = "replicate 1000 7 @ 0 # replicate 3095 (7 :: byte)"
  let ?s1 = "(opened 4104)\<lparr>
     trace := [Malloc 4096, Malloc 4096, Time, Srand 0] @ replicate 4096 Rand @
              [Eeprom_seek 0, Eeprom_write (replicate 4096 7), Eeprom_seek 0, Eeprom_read 4096],
     logs := [Msg ''preparing buffers ...'', Msg ''beginning of the data to be written:'',
              Hex 0 256 (replicate 256 7), Msg ''writing to EEPROM ...'',
              Msg ''reading the EEPROM ...'', Msg ''beginning of the data read back:'',
              Hex 0 256 (replicate 256 7)]\<rparr>"
  have io: "full_rw_io ?e (job 4096) (opened 0) = Inr (Some (replicate 4096 7, ?r, 0), ?s1)"
    by (simp add: selftest_defs cong: let_weak_cong)
  have i: "(1000::nat) < data_size (job 4096)" "?r ! 1000 \<noteq> replicate 4096 7 ! 1000"
    "\<forall>j<1000. ?r ! j = replicate 4096 7 ! j"
    by (simp_all add: job_def nth_append)
  have w: "take 256 (drop 872 ?r) = replicate 128 7 @ 0 # replicate 127 7"
    by simp
  from full_rw_eeprom_mismatch [OF io i] show ?thesis
    by (simp add: job_def opened_def w)
qed

lemma full_rw_eeprom_write_failed:
  "full_rw_eeprom (scripted (selftest_write_fails (replicate 16 7)) 1000) (job 16) (opened 0) =
   Inr (- 1, (opened 24)\<lparr>
     trace := [Malloc 16, Malloc 16, Time, Srand 0] @ replicate 16 Rand @
              [Eeprom_seek 0, Eeprom_write (replicate 16 7), Eeprom_seek 0, Eeprom_read 16],
     logs := [Msg ''preparing buffers ...'', Msg ''beginning of the data to be written:'',
              Hex 0 16 (replicate 16 7), Msg ''writing to EEPROM ...'',
              Msg ''failed to write data'',
              Msg ''reading the EEPROM ...'', Msg ''beginning of the data read back:'',
              Hex 0 16 (replicate 16 7), Msg ''comparing results ...'']\<rparr>)"
proof -
  let ?e = "scripted (selftest_write_fails (replicate 16 7)) 1000"
  let ?s1 = "(opened 24)\<lparr>
     trace := [Malloc 16, Malloc 16, Time, Srand 0] @ replicate 16 Rand @
              [Eeprom_seek 0, Eeprom_write (replicate 16 7), Eeprom_seek 0, Eeprom_read 16],
     logs := [Msg ''preparing buffers ...'', Msg ''beginning of the data to be written:'',
              Hex 0 16 (replicate 16 7), Msg ''writing to EEPROM ...'',
              Msg ''failed to write data'',
              Msg ''reading the EEPROM ...'', Msg ''beginning of the data read back:'',
              Hex 0 16 (replicate 16 7)]\<rparr>"
  have io: "full_rw_io ?e (job 16) (opened 0) =
      Inr (Some (replicate 16 7, replicate 16 7, - 1), ?s1)"
    by (simp add: selftest_defs selftest_write_fails_def cong: let_weak_cong)
  from full_rw_eeprom_equal [OF io refl] show ?thesis
    by (simp add: opened_def)
qed

text \<open>
  C6. The self-test of 4096 bytes in which the byte read back at index 4000 is the first
  that differs from the byte written. The start of the dump is 3872 and 256 bytes are
  dumped from there, which is 32 bytes more than the buffer of 4096 bytes has: the dump
  of the written data reads past the end of the buffer.
\<close>

theorem full_rw_eeprom_overread:
  "full_rw_eeprom (scripted (selftest (replicate 4000 7 @ 0 # replicate 95 7)) 1000)
     (job 4096) (opened 0) = Inl Buffer_overread"
proof -
  let ?e = "scripted (selftest (replicate 4000 7 @ 0 # replicate 95 7)) 1000"
  let ?r = "replicate 4000 7 @ 0 # replicate 95 (7 :: byte)"
  obtain s1 where io: "full_rw_io ?e (job 4096) (opened 0) =
      Inr (Some (replicate 4096 7, ?r, 0), s1)"
    by (simp add: selftest_defs cong: let_weak_cong)
  have i: "(4000::nat) < data_size (job 4096)" "?r ! 4000 \<noteq> replicate 4096 7 ! 4000"
    "\<forall>j<4000. ?r ! j = replicate 4096 7 ! j"
    by (simp_all add: job_def nth_append)
  from full_rw_eeprom_mismatch [OF io i] show ?thesis
    by (simp add: job_def)
qed

end
